theory Spec2Isabelle
  imports Complex_Main "HOL-Library.Word"
begin

section \<open>Response manager (class \<open>ResponseManager\<close>, server-agents.js)\<close>

text \<open>
  The class keeps two JavaScript \<open>Map\<close>s keyed by session id:
  \<open>pendingResponses\<close> (session id to \<open>{ locked, queue }\<close>) and
  \<open>lastResponseTime\<close> (session id to the \<open>Date.now()\<close> reading of the last
  \<open>unlock\<close>). A \<open>Map\<close> is a partial function; \<open>Date.now()\<close> is an integer number
  of milliseconds and is passed to the model as an argument wherever the source reads it.
\<close>

type_synonym session_id = string

record pending =
  locked :: bool
  queue :: "unit list"

record ResponseManager =
  pendingResponses :: "session_id \<rightharpoonup> pending"
  lastResponseTime :: "session_id \<rightharpoonup> int"

definition new_ResponseManager :: ResponseManager where
  "new_ResponseManager = \<lparr>pendingResponses = Map.empty, lastResponseTime = Map.empty\<rparr>"

text \<open>
  \<^verbatim>\<open>canRespond(sessionId) { const pending = this.pendingResponses.get(sessionId);
    if (!pending) return true; return !pending.locked; }\<close>
\<close>

definition canRespond :: "ResponseManager \<Rightarrow> session_id \<Rightarrow> bool" where
  "canRespond rm sessionId =
     (case pendingResponses rm sessionId of
        None \<Rightarrow> True
      | Some p \<Rightarrow> \<not> locked p)"

text \<open>\<^verbatim>\<open>lock(sessionId) { this.pendingResponses.set(sessionId, { locked: true, queue: [] }); }\<close>\<close>

definition lock :: "ResponseManager \<Rightarrow> session_id \<Rightarrow> ResponseManager" where
  "lock rm sessionId =
     rm\<lparr>pendingResponses := (pendingResponses rm)(sessionId \<mapsto> \<lparr>locked = True, queue = []\<rparr>)\<rparr>"

text \<open>
  \<^verbatim>\<open>unlock(sessionId) { this.pendingResponses.delete(sessionId);
    this.lastResponseTime.set(sessionId, Date.now()); }\<close>
  The argument \<open>now\<close> is the clock reading taken by the call.
\<close>

definition unlock :: "ResponseManager \<Rightarrow> session_id \<Rightarrow> int \<Rightarrow> ResponseManager" where
  "unlock rm sessionId now =
     rm\<lparr>pendingResponses := (pendingResponses rm)(sessionId := None),
        lastResponseTime := (lastResponseTime rm)(sessionId \<mapsto> now)\<rparr>"

text \<open>
  \<^verbatim>\<open>shouldDebounce(sessionId, minGapMs = 2000) {
    const lastTime = this.lastResponseTime.get(sessionId);
    if (!lastTime) return false;
    return (Date.now() - lastTime) < minGapMs; }\<close>
  The gap is optional (\<open>None\<close> is an omitted argument, which defaults to 2000). The
  test \<open>!lastTime\<close> holds for a missing entry and also for a stored reading of 0, which
  JavaScript treats as false.
\<close>

definition shouldDebounce :: "ResponseManager \<Rightarrow> session_id \<Rightarrow> int option \<Rightarrow> int \<Rightarrow> bool" where
  "shouldDebounce rm sessionId minGapMs now =
     (let gap = (case minGapMs of None \<Rightarrow> 2000 | Some g \<Rightarrow> g) in
      case lastResponseTime rm sessionId of
        None \<Rightarrow> False
      | Some lastTime \<Rightarrow> if lastTime = 0 then False else now - lastTime < gap)"

text \<open>A history of calls on one manager; \<open>Unlock s t\<close> is \<open>unlock(s)\<close> reading the clock at \<open>t\<close>.\<close>

datatype gate_call = Lock session_id | Unlock session_id int

fun gate_step :: "ResponseManager \<Rightarrow> gate_call \<Rightarrow> ResponseManager" where
  "gate_step rm (Lock s) = lock rm s"
| "gate_step rm (Unlock s t) = unlock rm s t"

definition run_calls :: "ResponseManager \<Rightarrow> gate_call list \<Rightarrow> ResponseManager" where
  "run_calls rm cs = foldl gate_step rm cs"

definition is_unlock_of :: "session_id \<Rightarrow> gate_call \<Rightarrow> bool" where
  "is_unlock_of s c = (case c of Unlock s' t \<Rightarrow> s' = s | Lock s' \<Rightarrow> False)"

section \<open>Message bus (class \<open>MessageBus\<close>)\<close>

text \<open>
  A subscriber is a JavaScript function of the published payload. What it does is
  modelled as a function of the payload and of the state \<open>'w\<close> of everything it can
  touch; it returns the new state and \<open>Some e\<close> when it throws \<open>e\<close> synchronously,
  \<open>None\<close> when it returns normally. (A subscriber that starts asynchronous work
  returns normally as far as the bus is concerned.) Writing the log line is not modelled,
  and a subscriber does not change the subscriber lists while a publish is running
  (in the source all subscriptions are made by constructors and on a new connection).
\<close>

type_synonym ('d, 'w, 'e) callback = "'d \<Rightarrow> 'w \<Rightarrow> 'w \<times> 'e option"

record ('d, 'w, 'e) MessageBus =
  subscribers :: "string \<rightharpoonup> ('d, 'w, 'e) callback list"

definition new_MessageBus :: "('d, 'w, 'e) MessageBus" where
  "new_MessageBus = \<lparr>subscribers = Map.empty\<rparr>"

text \<open>
  \<^verbatim>\<open>subscribe(event, callback) {
    if (!this.subscribers.has(event)) { this.subscribers.set(event, []); }
    this.subscribers.get(event).push(callback); }\<close>
\<close>

definition subscribe ::
  "('d, 'w, 'e) MessageBus \<Rightarrow> string \<Rightarrow> ('d, 'w, 'e) callback \<Rightarrow> ('d, 'w, 'e) MessageBus" where
  "subscribe bus event callback =
     (let present = (case subscribers bus event of None \<Rightarrow> [] | Some hs \<Rightarrow> hs)
      in bus\<lparr>subscribers := (subscribers bus)(event \<mapsto> present @ [callback])\<rparr>)"

text \<open>
  \<open>Array.prototype.forEach\<close> calls the function on each element in index order; an
  exception thrown by a call ends the loop and leaves \<open>forEach\<close>.
\<close>

fun forEach :: "('d, 'w, 'e) callback list \<Rightarrow> 'd \<Rightarrow> 'w \<Rightarrow> 'w \<times> 'e option" where
  "forEach [] data w = (w, None)"
| "forEach (handler # handlers) data w =
     (case handler data w of
        (w', Some e) \<Rightarrow> (w', Some e)
      | (w', None) \<Rightarrow> forEach handlers data w')"

text \<open>
  \<^verbatim>\<open>publish(event, data) { ...
    const handlers = this.subscribers.get(event) || [];
    handlers.forEach(handler => handler(data)); }\<close>
  The result is the state after the call and the exception that leaves \<open>publish\<close>,
  if any.
\<close>

definition publish ::
  "('d, 'w, 'e) MessageBus \<Rightarrow> string \<Rightarrow> 'd \<Rightarrow> 'w \<Rightarrow> 'w \<times> 'e option" where
  "publish bus event data w =
     forEach (case subscribers bus event of None \<Rightarrow> [] | Some hs \<Rightarrow> hs) data w"

text \<open>The state after all of \<open>hs\<close> have run in order, none of them throwing.\<close>

definition run_in_order :: "('d, 'w, 'e) callback list \<Rightarrow> 'd \<Rightarrow> 'w \<Rightarrow> 'w" where
  "run_in_order hs data w = foldl (\<lambda>w' h. fst (h data w')) w hs"

text \<open>Two subscribers that record their own call in a trace; the first one throws.\<close>

definition failing_subscriber :: "(unit, string list, string) callback" where
  "failing_subscriber data w = (w @ [''failing''], Some ''boom'')"

definition recording_subscriber :: "(unit, string list, string) callback" where
  "recording_subscriber data w = (w @ [''recording''], None)"

definition example_bus :: "(unit, string list, string) MessageBus" where
  "example_bus =
     subscribe (subscribe new_MessageBus ''topic'' failing_subscriber) ''topic'' recording_subscriber"

section \<open>Speech agent: audio level and voice-activity segmentation (class \<open>SpeechAgent\<close>)\<close>

text \<open>
  An audio frame is a Node \<open>Buffer\<close>, a sequence of bytes.
  \<^verbatim>\<open>calculateAudioLevel(buffer) {
    const samples = new Int16Array(buffer.buffer, buffer.byteOffset, buffer.length / 2);
    let sum = 0;
    for (let i = 0; i < samples.length; i++) { sum += samples[i] * samples[i]; }
    return Math.sqrt(sum / samples.length) / 32768; }\<close>
  The \<open>Int16Array\<close> view reads the bytes in pairs, low byte first (the byte order of
  every platform Node runs on), as signed 16-bit values; a fractional length is
  truncated, so a trailing odd byte is not read.
\<close>

type_synonym frame = "8 word list"

fun samples_of :: "frame \<Rightarrow> 16 word list" where
  "samples_of (lo # hi # rest) = word_cat hi lo # samples_of rest"
| "samples_of _ = []"

text \<open>
  The same decoding written as arithmetic on the bytes: sample \<open>i\<close> is the number
  \<open>b(2i) + 256 * b(2i+1)\<close>, read as a 16-bit two's complement value.
\<close>

definition int16_at :: "frame \<Rightarrow> nat \<Rightarrow> int" where
  "int16_at buffer i =
     (let v = uint (buffer ! (2 * i)) + 256 * uint (buffer ! (2 * i + 1))
      in if v < 32768 then v else v - 65536)"

text \<open>The loop: the sum of the squares, an integer (each sample is an integer).\<close>

fun sum_squares :: "16 word list \<Rightarrow> int \<Rightarrow> int" where
  "sum_squares [] sum_acc = sum_acc"
| "sum_squares (s # samples) sum_acc = sum_squares samples (sum_acc + sint s * sint s)"

text \<open>
  JavaScript numbers are binary64 floating-point numbers. The model computes in the
  integers and the real numbers. The sum of the squares is the exact integer, which is
  also what binary64 holds as long as the sum stays below \<open>2^53\<close> (any frame of up to
  \<open>2^23\<close> samples). The quotient, the square root and the division by 32768 are the
  real values; the binary64 operations return the binary64 number nearest to them, so
  where such a value is itself a binary64 number (0, 32767/32768, 1) it is the number
  that the source returns. With no sample the source divides 0 by 0 and the result is
  \<open>NaN\<close>, exactly; that is \<open>None\<close> here.
\<close>

definition calculateAudioLevel :: "frame \<Rightarrow> real option" where
  "calculateAudioLevel buffer =
     (let samples = samples_of buffer; sum_acc = sum_squares samples 0
      in if length samples = 0 then None
         else Some (sqrt (real_of_int sum_acc / real (length samples)) / 32768))"

text \<open>
  The state of the agent: \<open>Map\<close>s keyed by session id. A timer is present in its map
  from \<open>setTimeout\<close> until it is cleared; real time is not modelled, the expiry of a
  timer is a transition of its own (\<open>silenceTimer_fires\<close>, \<open>noAudioTimer_fires\<close>).
  The map \<open>noAudioTimers\<close> is created on first use in the source; an absent map and an
  empty one behave alike.
\<close>

record SpeechAgent =
  audioBuffers :: "session_id \<rightharpoonup> frame list"
  silenceTimers :: "session_id \<rightharpoonup> unit"
  isProcessing :: "session_id \<rightharpoonup> bool"
  isSpeaking :: "session_id \<rightharpoonup> bool"
  noAudioTimers :: "session_id \<rightharpoonup> unit"

definition new_SpeechAgent :: SpeechAgent where
  "new_SpeechAgent =
     \<lparr>audioBuffers = Map.empty, silenceTimers = Map.empty, isProcessing = Map.empty,
      isSpeaking = Map.empty, noAudioTimers = Map.empty\<rparr>"

text \<open>
  What the agent sends out: \<open>ListeningState s st\<close> is
  \<open>bus.publish('client:listening_state', { sessionId: s, state: st })\<close>, and
  \<open>Transcribe s audio\<close> is the call \<open>this.transcribe(this.pcmToWav(audio))\<close> made for
  session \<open>s\<close>: the concatenated audio handed on to transcription as one utterance.
  \<open>SpeechTranscribed s text\<close> and \<open>ClientTranscript s text role\<close> are the events
  \<open>speech:transcribed\<close> and \<open>client:transcript\<close>.
\<close>

datatype effect =
    ListeningState session_id string
  | Transcribe session_id frame
  | SpeechTranscribed session_id string
  | ClientTranscript session_id string string

definition SPEECH_THRESHOLD :: real where
  "SPEECH_THRESHOLD = 0.02"

text \<open>\<open>audioLevel > SPEECH_THRESHOLD\<close>; a comparison with \<open>NaN\<close> is false.\<close>

definition above_threshold :: "real option \<Rightarrow> bool" where
  "above_threshold audioLevel = (case audioLevel of None \<Rightarrow> False | Some l \<Rightarrow> l > SPEECH_THRESHOLD)"

definition truthy :: "bool option \<Rightarrow> bool" where
  "truthy v = (v = Some True)"

definition buffered :: "SpeechAgent \<Rightarrow> session_id \<Rightarrow> frame list" where
  "buffered sa sessionId = (case audioBuffers sa sessionId of None \<Rightarrow> [] | Some chunks \<Rightarrow> chunks)"

text \<open>
  \<^verbatim>\<open>async processAudio(sessionId) {
    if (this.isProcessing.get(sessionId)) return;
    this.isProcessing.set(sessionId, true);
    const chunks = this.audioBuffers.get(sessionId) || [];
    if (chunks.length === 0) { this.isProcessing.set(sessionId, false); return; }
    this.audioBuffers.set(sessionId, []);
    try {
      const audioBuffer = Buffer.concat(chunks);
      if (audioBuffer.length < 3200) { this.isProcessing.set(sessionId, false); return; }
      ...
      this.bus.publish('client:listening_state', { sessionId, state: 'processing' });
      const wavBuffer = this.pcmToWav(audioBuffer);
      try { const transcription = await this.transcribe(wavBuffer); ...\<close>
  This is the part of the function that runs before it waits for the transcription;
  \<open>transcription_settled\<close> below is the rest.
\<close>

definition processAudio :: "SpeechAgent \<Rightarrow> session_id \<Rightarrow> SpeechAgent \<times> effect list" where
  "processAudio sa sessionId =
     (if truthy (isProcessing sa sessionId) then (sa, [])
      else
        (let sa1 = sa\<lparr>isProcessing := (isProcessing sa)(sessionId \<mapsto> True)\<rparr>;
             chunks = buffered sa1 sessionId
         in if length chunks = 0
            then (sa1\<lparr>isProcessing := (isProcessing sa1)(sessionId \<mapsto> False)\<rparr>, [])
            else
              (let sa2 = sa1\<lparr>audioBuffers := (audioBuffers sa1)(sessionId \<mapsto> [])\<rparr>;
                   audioBuffer = concat chunks
               in if length audioBuffer < 3200
                  then (sa2\<lparr>isProcessing := (isProcessing sa2)(sessionId \<mapsto> False)\<rparr>, [])
                  else (sa2, [ListeningState sessionId ''processing'',
                              Transcribe sessionId audioBuffer]))))"

text \<open>
  The rest of \<open>processAudio\<close>, once the transcription has come back: a text that is
  not blank is published on \<open>speech:transcribed\<close> and \<open>client:transcript\<close>;
  with a blank text (\<open>NoSpeech\<close>) and on an error the listening state goes back to
  \<open>ready\<close>; in every case \<open>this.isProcessing.set(sessionId, false)\<close>.
\<close>

datatype transcription = Transcribed string | NoSpeech | TranscribeError

definition transcription_settled ::
  "SpeechAgent \<Rightarrow> session_id \<Rightarrow> transcription \<Rightarrow> SpeechAgent \<times> effect list" where
  "transcription_settled sa sessionId result =
     (sa\<lparr>isProcessing := (isProcessing sa)(sessionId \<mapsto> False)\<rparr>,
      (case result of
         Transcribed text \<Rightarrow>
           [SpeechTranscribed sessionId text, ClientTranscript sessionId text ''user'']
       | NoSpeech \<Rightarrow> [ListeningState sessionId ''ready'']
       | TranscribeError \<Rightarrow> [ListeningState sessionId ''ready'']))"

text \<open>
  \<^verbatim>\<open>handleAudio(data) {
    const { sessionId, audioData } = data; const buffer = Buffer.from(audioData);
    const audioLevel = this.calculateAudioLevel(buffer);
    if (!this.audioBuffers.has(sessionId)) {
      this.audioBuffers.set(sessionId, []); this.isSpeaking.set(sessionId, false); }
    if (this.noAudioTimers && this.noAudioTimers.has(sessionId)) {
      clearTimeout(...); this.noAudioTimers.delete(sessionId); }
    if (this.isSpeaking.get(sessionId)) { ... this.noAudioTimers.set(sessionId, setTimeout(...)); }
    if (audioLevel > SPEECH_THRESHOLD) {
      if (!this.isSpeaking.get(sessionId)) {
        this.isSpeaking.set(sessionId, true);
        this.bus.publish('client:listening_state', { sessionId, state: 'listening' }); }
      this.audioBuffers.get(sessionId).push(buffer);
      if (this.silenceTimers.has(sessionId)) { clearTimeout(...); this.silenceTimers.delete(sessionId); }
    } else if (this.isSpeaking.get(sessionId)) {
      this.audioBuffers.get(sessionId).push(buffer);
      if (!this.silenceTimers.has(sessionId)) { this.silenceTimers.set(sessionId, setTimeout(...)); }
    } }\<close>
\<close>

definition handleAudio :: "SpeechAgent \<Rightarrow> session_id \<Rightarrow> frame \<Rightarrow> SpeechAgent \<times> effect list" where
  "handleAudio sa sessionId buffer =
     (let audioLevel = calculateAudioLevel buffer;
          sa1 = (if audioBuffers sa sessionId = None
                 then sa\<lparr>audioBuffers := (audioBuffers sa)(sessionId \<mapsto> []),
                         isSpeaking := (isSpeaking sa)(sessionId \<mapsto> False)\<rparr>
                 else sa);
          sa2 = sa1\<lparr>noAudioTimers := (noAudioTimers sa1)(sessionId := None)\<rparr>;
          sa3 = (if truthy (isSpeaking sa2 sessionId)
                 then sa2\<lparr>noAudioTimers := (noAudioTimers sa2)(sessionId \<mapsto> ())\<rparr>
                 else sa2)
      in if above_threshold audioLevel then
           (let started = \<not> truthy (isSpeaking sa3 sessionId);
                sa4 = (if started
                       then sa3\<lparr>isSpeaking := (isSpeaking sa3)(sessionId \<mapsto> True)\<rparr>
                       else sa3);
                sa5 = sa4\<lparr>audioBuffers :=
                             (audioBuffers sa4)(sessionId \<mapsto> buffered sa4 sessionId @ [buffer])\<rparr>;
                sa6 = sa5\<lparr>silenceTimers := (silenceTimers sa5)(sessionId := None)\<rparr>
            in (sa6, if started then [ListeningState sessionId ''listening''] else []))
         else if truthy (isSpeaking sa3 sessionId) then
           (let sa4 = sa3\<lparr>audioBuffers :=
                             (audioBuffers sa3)(sessionId \<mapsto> buffered sa3 sessionId @ [buffer])\<rparr>;
                sa5 = (if silenceTimers sa4 sessionId = None
                       then sa4\<lparr>silenceTimers := (silenceTimers sa4)(sessionId \<mapsto> ())\<rparr>
                       else sa4)
            in (sa5, []))
         else (sa3, []))"

text \<open>
  The callback of the silence timer:
  \<^verbatim>\<open>this.isSpeaking.set(sessionId, false); this.silenceTimers.delete(sessionId);
  this.processAudio(sessionId);\<close>
\<close>

definition silenceTimer_fires :: "SpeechAgent \<Rightarrow> session_id \<Rightarrow> SpeechAgent \<times> effect list" where
  "silenceTimer_fires sa sessionId =
     processAudio (sa\<lparr>isSpeaking := (isSpeaking sa)(sessionId \<mapsto> False),
                      silenceTimers := (silenceTimers sa)(sessionId := None)\<rparr>) sessionId"

text \<open>
  The callback of the no-audio timer:
  \<^verbatim>\<open>if (this.isSpeaking.get(sessionId) && (this.audioBuffers.get(sessionId)?.length || 0) > 0) {
    this.isSpeaking.set(sessionId, false);
    if (this.silenceTimers.has(sessionId)) { clearTimeout(...); this.silenceTimers.delete(sessionId); }
    this.processAudio(sessionId); }\<close>
\<close>

definition noAudioTimer_fires :: "SpeechAgent \<Rightarrow> session_id \<Rightarrow> SpeechAgent \<times> effect list" where
  "noAudioTimer_fires sa sessionId =
     (if truthy (isSpeaking sa sessionId) \<and> length (buffered sa sessionId) > 0
      then processAudio (sa\<lparr>isSpeaking := (isSpeaking sa)(sessionId \<mapsto> False),
                            silenceTimers := (silenceTimers sa)(sessionId := None)\<rparr>) sessionId
      else (sa, []))"

text \<open>
  \<^verbatim>\<open>async processAudioNow(data) { const { sessionId } = data;
    if (this.silenceTimers.has(sessionId)) { clearTimeout(...); this.silenceTimers.delete(sessionId); }
    await this.processAudio(sessionId); }\<close>
\<close>

definition processAudioNow :: "SpeechAgent \<Rightarrow> session_id \<Rightarrow> SpeechAgent \<times> effect list" where
  "processAudioNow sa sessionId =
     processAudio (sa\<lparr>silenceTimers := (silenceTimers sa)(sessionId := None)\<rparr>) sessionId"

text \<open>Feeding the frames of one session in arrival order; the effects are collected.\<close>

fun feed :: "SpeechAgent \<Rightarrow> session_id \<Rightarrow> frame list \<Rightarrow> SpeechAgent \<times> effect list" where
  "feed sa sessionId [] = (sa, [])"
| "feed sa sessionId (buffer # rest) =
     (case handleAudio sa sessionId buffer of
        (sa', es) \<Rightarrow> (case feed sa' sessionId rest of (sa'', es') \<Rightarrow> (sa'', es @ es')))"

text \<open>The utterances among the effects: the audio of each \<open>Transcribe\<close>, in order.\<close>

fun utterances :: "effect list \<Rightarrow> frame list" where
  "utterances [] = []"
| "utterances (Transcribe s audio # es) = audio # utterances es"
| "utterances (ListeningState s st # es) = utterances es"
| "utterances (SpeechTranscribed s text # es) = utterances es"
| "utterances (ClientTranscript s text role # es) = utterances es"

text \<open>Example frames: 1600 samples (3200 bytes) of full amplitude, and one sample.\<close>

definition loud_frame :: frame where
  "loud_frame = concat (replicate 1600 [255, 127])"

definition blip_frame :: frame where
  "blip_frame = [255, 127]"

section \<open>Tasks (class \<open>A2ATask\<close>)\<close>

text \<open>
  JSON values travel as inputs and outputs of tasks. \<open>None\<close> at type \<open>json option\<close>
  and in the \<open>error\<close> and \<open>message\<close> fields stands for JavaScript's \<open>undefined\<close> or
  \<open>null\<close>, which the source never tells apart there. For the identifiers of a request
  (\<open>skillId\<close>, \<open>sessionId\<close>, \<open>taskId\<close>, \<open>agentId\<close>, \<open>method\<close>) \<open>None\<close> is a
  field that is absent (\<open>undefined\<close>); a request that sends one of them as JSON
  \<open>null\<close> is outside the model.
\<close>

datatype json =
    JNull
  | JBool bool
  | JNum real
  | JStr string
  | JArr "json list"
  | JObj "(string \<times> json) list"

datatype TaskState = SUBMITTED | WORKING | INPUT_REQUIRED | COMPLETED | FAILED | CANCELED

text \<open>One element of \<open>task.history\<close>: \<open>{ state, timestamp, message }\<close>.\<close>

record history_entry =
  entry_state :: TaskState
  timestamp :: int
  message :: "string option"

record A2ATask =
  task_id :: string
  sessionId :: "string option"
  skillId :: "string option"
  input :: "json option"
  state :: TaskState
  task_output :: "json option"
  error :: "string option"
  createdAt :: int
  updatedAt :: int
  history :: "history_entry list"

text \<open>
  The constructor. \<open>new_id\<close> is the value of \<open>generateTaskId()\<close>; \<open>created\<close> and
  \<open>updated\<close> are the two readings of \<open>Date.now()\<close>.
  \<^verbatim>\<open>this.state = TaskState.SUBMITTED; this.output = null; this.error = null; ...
  this.history = [];\<close>
\<close>

definition new_A2ATask ::
  "string option \<Rightarrow> json option \<Rightarrow> string option \<Rightarrow> string \<Rightarrow> int \<Rightarrow> int \<Rightarrow> A2ATask" where
  "new_A2ATask skill inp session new_id created updated =
     \<lparr>task_id = new_id, sessionId = session, skillId = skill, input = inp,
      state = SUBMITTED, task_output = None, error = None,
      createdAt = created, updatedAt = updated, history = []\<rparr>"

text \<open>
  \<^verbatim>\<open>updateState(newState, message = null) {
    this.state = newState; this.updatedAt = Date.now();
    this.history.push({ state: newState, timestamp: this.updatedAt, message }); }\<close>
\<close>

definition updateState :: "A2ATask \<Rightarrow> TaskState \<Rightarrow> string option \<Rightarrow> int \<Rightarrow> A2ATask" where
  "updateState task newState msg now =
     task\<lparr>state := newState, updatedAt := now,
          history := history task @ [\<lparr>entry_state = newState, timestamp = now, message = msg\<rparr>]\<rparr>"

text \<open>\<^verbatim>\<open>complete(output) { this.output = output; this.updateState(TaskState.COMPLETED); }\<close>\<close>

definition complete :: "A2ATask \<Rightarrow> json option \<Rightarrow> int \<Rightarrow> A2ATask" where
  "complete task out now = updateState (task\<lparr>task_output := out\<rparr>) COMPLETED None now"

text \<open>\<^verbatim>\<open>fail(error) { this.error = error; this.updateState(TaskState.FAILED, error); }\<close>\<close>

definition fail :: "A2ATask \<Rightarrow> string option \<Rightarrow> int \<Rightarrow> A2ATask" where
  "fail task err now = updateState (task\<lparr>error := err\<rparr>) FAILED err now"

text \<open>\<open>toJSON()\<close> keeps eight of the ten fields (the two time stamps are dropped).\<close>

datatype task_json =
  TaskJSON (j_id: string) (j_sessionId: "string option") (j_skillId: "string option")
    (j_state: TaskState) (j_input: "json option") (j_output: "json option")
    (j_error: "string option") (j_history: "history_entry list")

definition toJSON :: "A2ATask \<Rightarrow> task_json" where
  "toJSON task =
     TaskJSON (task_id task) (sessionId task) (skillId task) (state task)
       (input task) (task_output task) (error task) (history task)"

section \<open>Protocol handler (class \<open>A2AProtocolHandler\<close>)\<close>

text \<open>
  What a skill handler can throw. The source reads \<open>error.message\<close> of the caught
  value: an \<open>Error\<close> object has one; on \<open>null\<close> or \<open>undefined\<close> the read itself
  throws a \<open>TypeError\<close>; any other value has no such property and the read gives
  \<open>undefined\<close>.
\<close>

datatype thrown = ErrorObject string | ThrownNullish | ThrownOther

text \<open>
  The handler is awaited: its promise is fulfilled with a value, rejected with a thrown
  value (a synchronous throw is caught by the same \<open>try\<close>), or never settled.
\<close>

datatype handler_outcome = Resolves "json option" | Rejects thrown | NeverSettles

text \<open>
  A handler is called as \<open>handler(input, sessionId, task)\<close> with the task in state
  Working. Its result here is how its promise settles; what it, or anything else, does
  to the task object before that is in \<open>meanwhile\<close> below.
\<close>

type_synonym skill_handler = "json option \<Rightarrow> string option \<Rightarrow> A2ATask \<Rightarrow> handler_outcome"

text \<open>
  \<open>agents\<close> is a \<open>Map\<close> whose iteration order (insertion order) is visible through
  \<open>listAgents\<close>, so it is an association list; \<open>'c\<close> is the type of agent cards.
\<close>

record 'c A2AProtocolHandler =
  agents :: "(string \<times> 'c) list"
  tasks :: "string \<rightharpoonup> A2ATask"
  agentHandlers :: "string \<rightharpoonup> skill_handler"

definition new_A2AProtocolHandler :: "'c A2AProtocolHandler" where
  "new_A2AProtocolHandler = \<lparr>agents = [], tasks = Map.empty, agentHandlers = Map.empty\<rparr>"

text \<open>How an \<open>async\<close> function ends for its caller.\<close>

datatype 'a completion = Returned 'a | RaisedTypeError | Hangs

text \<open>
  sendTask puts the task object into \<open>this.tasks\<close> and then waits for the handler.
  While it waits, the object is shared: \<open>handleTaskComplete\<close> and \<open>handleTaskFail\<close>
  (the subscribers of \<open>a2a:task:complete\<close> and \<open>a2a:task:fail\<close>) find it under its id
  and call \<open>complete\<close> or \<open>fail\<close> on it, and the handler holds it too. A
  \<open>task_call\<close> is one such call of a method of the task, with the clock reading it takes.
\<close>

datatype task_call =
    CompleteCall "json option" int
  | FailCall "string option" int
  | UpdateStateCall TaskState "string option" int

fun apply_call :: "A2ATask \<Rightarrow> task_call \<Rightarrow> A2ATask" where
  "apply_call task (CompleteCall out now) = complete task out now"
| "apply_call task (FailCall err now) = fail task err now"
| "apply_call task (UpdateStateCall s msg now) = updateState task s msg now"

definition apply_calls :: "A2ATask \<Rightarrow> task_call list \<Rightarrow> A2ATask" where
  "apply_calls task calls = foldl apply_call task calls"

fun call_state :: "task_call \<Rightarrow> TaskState" where
  "call_state (CompleteCall out now) = COMPLETED"
| "call_state (FailCall err now) = FAILED"
| "call_state (UpdateStateCall s msg now) = s"

text \<open>
  What one run of sendTask takes from its surroundings, in the order it meets it: the
  generated id, the clock readings, and \<open>meanwhile\<close>, the calls that reach the task
  object between the call of the handler and the moment its promise settles (none when
  nothing else touches the task).
\<close>

record send_env =
  new_id :: string
  now_created :: int
  now_updated :: int
  now_first :: int
  meanwhile :: "task_call list"
  now_settled :: int

text \<open>
  A template literal prints \<open>undefined\<close> for an absent value (\<open>None\<close> is an absent
  identifier here, see above).
\<close>

definition template :: "string option \<Rightarrow> string" where
  "template v = (case v of None \<Rightarrow> ''undefined'' | Some s \<Rightarrow> s)"

text \<open>\<open>this.agentHandlers.get(skillId)\<close>; no handler is registered under \<open>undefined\<close>.\<close>

definition find_handler :: "'c A2AProtocolHandler \<Rightarrow> string option \<Rightarrow> skill_handler option" where
  "find_handler ph skill = (case skill of None \<Rightarrow> None | Some k \<Rightarrow> agentHandlers ph k)"

text \<open>The \<open>tasks\<close> map holds the task object itself, so it sees every later change.\<close>

definition store :: "'c A2AProtocolHandler \<Rightarrow> A2ATask \<Rightarrow> 'c A2AProtocolHandler" where
  "store ph task = ph\<lparr>tasks := (tasks ph)(task_id task \<mapsto> task)\<rparr>"

text \<open>
  \<^verbatim>\<open>async sendTask(skillId, input, sessionId) {
    const task = new A2ATask(skillId, input, sessionId);
    this.tasks.set(task.id, task);
    const handler = this.agentHandlers.get(skillId);
    if (!handler) { task.fail(`No handler for skill: ${skillId}`); return task; }
    task.updateState(TaskState.WORKING);
    try { const result = await handler(input, sessionId, task); task.complete(result); }
    catch (error) { task.fail(error.message); }
    return task; }\<close>
  Without a handler the function runs through without waiting. With one, the handler is
  called with the task in state Working; when its promise settles, \<open>complete\<close> or
  \<open>fail\<close> runs on the task object as the calls of \<open>meanwhile\<close> have left it. The
  result is the handler state with this task in it (what happens to other tasks in the
  meantime is not part of it) and the way the function ends for its caller.
\<close>

definition sendTask ::
  "'c A2AProtocolHandler \<Rightarrow> string option \<Rightarrow> json option \<Rightarrow> string option \<Rightarrow> send_env
   \<Rightarrow> 'c A2AProtocolHandler \<times> A2ATask completion" where
  "sendTask ph skill inp session env =
     (let task = new_A2ATask skill inp session (new_id env) (now_created env) (now_updated env)
      in case find_handler ph skill of
           None \<Rightarrow>
             (let failed = fail task (Some (''No handler for skill: '' @ template skill)) (now_first env)
              in (store ph failed, Returned failed))
         | Some handler \<Rightarrow>
             (let working = updateState task WORKING None (now_first env);
                  outcome = handler inp session working;
                  current = apply_calls working (meanwhile env)
              in case outcome of
                   Resolves result \<Rightarrow>
                     (let done = complete current result (now_settled env)
                      in (store ph done, Returned done))
                 | Rejects (ErrorObject msg) \<Rightarrow>
                     (let failed = fail current (Some msg) (now_settled env)
                      in (store ph failed, Returned failed))
                 | Rejects ThrownOther \<Rightarrow>
                     (let failed = fail current None (now_settled env)
                      in (store ph failed, Returned failed))
                 | Rejects ThrownNullish \<Rightarrow> (store ph current, RaisedTypeError)
                 | NeverSettles \<Rightarrow> (store ph current, Hangs)))"

text \<open>
  \<^verbatim>\<open>handleTaskComplete(data) { const { taskId, output } = data;
    const task = this.tasks.get(taskId); if (task) { task.complete(output); ... } }\<close>
  and the same for \<open>handleTaskFail\<close> with \<open>task.fail(error)\<close>.
\<close>

definition handleTaskComplete ::
  "'c A2AProtocolHandler \<Rightarrow> string \<Rightarrow> json option \<Rightarrow> int \<Rightarrow> 'c A2AProtocolHandler" where
  "handleTaskComplete ph taskId out now =
     (case tasks ph taskId of
        None \<Rightarrow> ph
      | Some task \<Rightarrow> ph\<lparr>tasks := (tasks ph)(taskId \<mapsto> complete task out now)\<rparr>)"

definition handleTaskFail ::
  "'c A2AProtocolHandler \<Rightarrow> string \<Rightarrow> string option \<Rightarrow> int \<Rightarrow> 'c A2AProtocolHandler" where
  "handleTaskFail ph taskId err now =
     (case tasks ph taskId of
        None \<Rightarrow> ph
      | Some task \<Rightarrow> ph\<lparr>tasks := (tasks ph)(taskId \<mapsto> fail task err now)\<rparr>)"

text \<open>\<open>getTask\<close>, \<open>getAgentCard\<close> and \<open>listAgents\<close>.\<close>

definition getTask :: "'c A2AProtocolHandler \<Rightarrow> string option \<Rightarrow> task_json option" where
  "getTask ph taskId =
     (case taskId of None \<Rightarrow> None | Some k \<Rightarrow> map_option toJSON (tasks ph k))"

definition getAgentCard :: "'c A2AProtocolHandler \<Rightarrow> string option \<Rightarrow> 'c option" where
  "getAgentCard ph agentId =
     (case agentId of None \<Rightarrow> None | Some k \<Rightarrow> map_of (agents ph) k)"

definition listAgents :: "'c A2AProtocolHandler \<Rightarrow> (string \<times> 'c) list" where
  "listAgents ph = agents ph"

text \<open>The states of a history, and the transition graphs they are read against.\<close>

definition states_of :: "A2ATask \<Rightarrow> TaskState list" where
  "states_of task = map entry_state (history task)"

definition terminal :: "TaskState \<Rightarrow> bool" where
  "terminal s = (s = COMPLETED \<or> s = FAILED \<or> s = CANCELED)"

definition terminal_entries :: "A2ATask \<Rightarrow> nat" where
  "terminal_entries task = length (filter terminal (states_of task))"

text \<open>The graph of the specification: Submitted to Working to Completed or Failed.\<close>

fun spec_successor :: "TaskState \<Rightarrow> TaskState \<Rightarrow> bool" where
  "spec_successor SUBMITTED WORKING = True"
| "spec_successor WORKING COMPLETED = True"
| "spec_successor WORKING FAILED = True"
| "spec_successor _ _ = False"

text \<open>The same graph with the edge that sendTask takes when no handler is registered.\<close>

fun dispatch_successor :: "TaskState \<Rightarrow> TaskState \<Rightarrow> bool" where
  "dispatch_successor SUBMITTED FAILED = True"
| "dispatch_successor a b = spec_successor a b"

fun walk :: "(TaskState \<Rightarrow> TaskState \<Rightarrow> bool) \<Rightarrow> TaskState list \<Rightarrow> bool" where
  "walk edge (a # b # rest) = (edge a b \<and> walk edge (b # rest))"
| "walk edge _ = True"

text \<open>
  Example data: a handler that echoes a fixed result, one that throws an \<open>Error\<close>, one
  whose promise is rejected with \<open>null\<close> (\<open>async () => { throw null }\<close>), and the
  surroundings of one call, without and with an \<open>a2a:task:fail\<close> event for the task
  while its handler is awaited.
\<close>

definition happy_input :: json where
  "happy_input = JObj [(''mood'', JStr ''happy'')]"

definition happy_output :: json where
  "happy_output = JObj [(''success'', JBool True), (''mood'', JStr ''happy'')]"

definition echo_handler :: skill_handler where
  "echo_handler inp session task = Resolves (Some happy_output)"

definition throwing_handler :: skill_handler where
  "throwing_handler inp session task = Rejects (ErrorObject ''Spotify API error'')"


definition example_env :: send_env where
  "example_env = \<lparr>new_id = ''task_1'', now_created = 1000, now_updated = 1000,
                   now_first = 1001, meanwhile = [], now_settled = 1500\<rparr>"

definition racing_env :: send_env where
  "racing_env = \<lparr>new_id = ''task_1'', now_created = 1000, now_updated = 1000,
                  now_first = 1001, meanwhile = [FailCall (Some ''stopped by peer'') 1200],
                  now_settled = 1500\<rparr>"

definition example_handler :: "unit A2AProtocolHandler" where
  "example_handler =
     new_A2AProtocolHandler\<lparr>agentHandlers :=
       [''play_by_mood'' \<mapsto> echo_handler, ''play_music'' \<mapsto> throwing_handler]\<rparr>"


definition returned :: "'a completion \<Rightarrow> 'a option" where
  "returned c = (case c of Returned x \<Rightarrow> Some x | RaisedTypeError \<Rightarrow> None | Hangs \<Rightarrow> None)"

section \<open>HTTP routes of the task protocol\<close>

text \<open>
  \<open>A2AMessage.createResponse(id, result)\<close> and \<open>A2AMessage.createError(id, code,
  message)\<close> build the two JSON-RPC envelopes (\<open>jsonrpc\<close> is always \<open>2.0\<close> and
  \<open>data\<close> always \<open>null\<close> at the call sites below). The message of an error is a
  string of the source or the text that the JavaScript engine gives its own \<open>TypeError\<close>.
\<close>

datatype err_message = Msg string | TypeErrorText

datatype 'c payload =
    TaskPayload task_json
  | CardPayload 'c
  | AgentsPayload "(string \<times> 'c) list"

datatype 'c A2AMessage =
    ResponseMsg "json option" "'c payload"
  | ErrorMsg "json option" int err_message

definition createResponse :: "json option \<Rightarrow> 'c payload \<Rightarrow> 'c A2AMessage" where
  "createResponse rid result = ResponseMsg rid result"

definition createError :: "json option \<Rightarrow> int \<Rightarrow> err_message \<Rightarrow> 'c A2AMessage" where
  "createError rid code msg = ErrorMsg rid code msg"

text \<open>An HTTP reply: the status and the JSON body.\<close>

datatype 'c reply = Reply (status: nat) (body: "'c A2AMessage")

definition error_code :: "'c reply \<Rightarrow> int option" where
  "error_code r = (case body r of ErrorMsg rid code msg \<Rightarrow> Some code | ResponseMsg rid res \<Rightarrow> None)"

text \<open>JavaScript's falsy test on the values that the routes test.\<close>

definition falsy_string :: "string option \<Rightarrow> bool" where
  "falsy_string v = (case v of None \<Rightarrow> True | Some s \<Rightarrow> s = [])"

definition falsy_json :: "json option \<Rightarrow> bool" where
  "falsy_json v =
     (case v of
        None \<Rightarrow> True
      | Some JNull \<Rightarrow> True
      | Some (JBool b) \<Rightarrow> \<not> b
      | Some (JNum x) \<Rightarrow> x = 0
      | Some (JStr s) \<Rightarrow> s = []
      | Some (JArr xs) \<Rightarrow> False
      | Some (JObj kvs) \<Rightarrow> False)"

text \<open>
  \<^verbatim>\<open>app.get('/api/a2a/agents/:agentId', ...)\<close>:
  \<^verbatim>\<open>if (!card) { ... createError(null, -32001, 'Agent not found'); return res.status(404)... }\<close>
\<close>

definition get_agent_route :: "'c A2AProtocolHandler \<Rightarrow> string \<Rightarrow> 'c reply" where
  "get_agent_route ph agentId =
     (case getAgentCard ph (Some agentId) of
        None \<Rightarrow> Reply 404 (createError None (- 32001) (Msg ''Agent not found''))
      | Some agent_card \<Rightarrow> Reply 200 (createResponse None (CardPayload agent_card)))"

text \<open>
  \<^verbatim>\<open>app.get('/api/a2a/tasks/:taskId', ...)\<close>:
  \<^verbatim>\<open>if (!task) { ... createError(null, -32001, 'Task not found'); return res.status(404)... }\<close>
\<close>

definition get_task_route :: "'c A2AProtocolHandler \<Rightarrow> string \<Rightarrow> 'c reply" where
  "get_task_route ph taskId =
     (case getTask ph (Some taskId) of
        None \<Rightarrow> Reply 404 (createError None (- 32001) (Msg ''Task not found''))
      | Some task \<Rightarrow> Reply 200 (createResponse None (TaskPayload task)))"

text \<open>The body of a POST to \<open>/api/a2a/tasks/send\<close>: \<open>{ id, skillId, input, sessionId }\<close>.\<close>

record send_body =
  body_id :: "json option"
  body_skillId :: "string option"
  body_input :: "json option"
  body_sessionId :: "string option"

text \<open>
  \<^verbatim>\<open>try { const { skillId, input, sessionId } = req.body;
    if (!skillId) { ... createError(req.body.id, -32602, 'Missing skillId'); return res.status(400)... }
    const task = await a2aProtocol.sendTask(skillId, input || {}, sessionId || 'api');
    res.json(createResponse(req.body.id, task.toJSON()));
  } catch (error) { res.status(500).json(createError(req.body.id, -32603, error.message)); }\<close>
  The reply is \<open>None\<close> when the awaited task never comes back.
\<close>

definition tasks_send_route ::
  "'c A2AProtocolHandler \<Rightarrow> send_body \<Rightarrow> send_env \<Rightarrow> 'c A2AProtocolHandler \<times> 'c reply option" where
  "tasks_send_route ph req env =
     (if falsy_string (body_skillId req)
      then (ph, Some (Reply 400 (createError (body_id req) (- 32602) (Msg ''Missing skillId''))))
      else
        (case sendTask ph (body_skillId req)
                (if falsy_json (body_input req) then Some (JObj []) else body_input req)
                (if falsy_string (body_sessionId req) then Some ''api'' else body_sessionId req)
                env of
           (ph', Returned task) \<Rightarrow>
             (ph', Some (Reply 200 (createResponse (body_id req) (TaskPayload (toJSON task)))))
         | (ph', RaisedTypeError) \<Rightarrow>
             (ph', Some (Reply 500 (createError (body_id req) (- 32603) TypeErrorText)))
         | (ph', Hangs) \<Rightarrow> (ph', None)))"

text \<open>The body of a POST to \<open>/api/a2a/rpc\<close>: \<open>{ jsonrpc, id, method, params }\<close>.\<close>

record rpc_params =
  params_skillId :: "string option"
  params_input :: "json option"
  params_sessionId :: "string option"
  params_taskId :: "string option"
  params_agentId :: "string option"

record rpc_request =
  jsonrpc :: "string option"
  rpc_id :: "json option"
  rpc_method :: "string option"
  params :: "rpc_params option"

text \<open>
  The JSON-RPC route. Reading a property of an absent \<open>params\<close> throws a
  \<open>TypeError\<close> inside the \<open>try\<close>; the two \<open>throw new Error(...)\<close> land in the same
  \<open>catch\<close>, which answers 500 with code -32603 and the error's message.
  \<^verbatim>\<open>if (jsonrpc !== '2.0') { ... createError(id, -32600, 'Invalid JSON-RPC version'); return res.status(400)... }
  try { switch (method) {
      case 'tasks/send': const task = await a2aProtocol.sendTask(params.skillId, params.input, params.sessionId);
                         result = task.toJSON(); break;
      case 'tasks/get':  result = a2aProtocol.getTask(params.taskId);
                         if (!result) throw new Error('Task not found'); break;
      case 'agents/list': result = { agents: a2aProtocol.listAgents() }; break;
      case 'agents/get': result = a2aProtocol.getAgentCard(params.agentId);
                         if (!result) throw new Error('Agent not found'); break;
      default: ... createError(id, -32601, `Method not found: ${method}`); return res.status(400)... }
    res.json(createResponse(id, result));
  } catch (error) { res.status(500).json(createError(id, -32603, error.message)); }\<close>
\<close>

definition rpc_route ::
  "'c A2AProtocolHandler \<Rightarrow> rpc_request \<Rightarrow> send_env \<Rightarrow> 'c A2AProtocolHandler \<times> 'c reply option" where
  "rpc_route ph req env =
     (if jsonrpc req \<noteq> Some ''2.0''
      then (ph, Some (Reply 400 (createError (rpc_id req) (- 32600) (Msg ''Invalid JSON-RPC version''))))
      else if rpc_method req = Some ''tasks/send'' then
        (case params req of
           None \<Rightarrow> (ph, Some (Reply 500 (createError (rpc_id req) (- 32603) TypeErrorText)))
         | Some p \<Rightarrow>
             (case sendTask ph (params_skillId p) (params_input p) (params_sessionId p) env of
                (ph', Returned task) \<Rightarrow>
                  (ph', Some (Reply 200 (createResponse (rpc_id req) (TaskPayload (toJSON task)))))
              | (ph', RaisedTypeError) \<Rightarrow>
                  (ph', Some (Reply 500 (createError (rpc_id req) (- 32603) TypeErrorText)))
              | (ph', Hangs) \<Rightarrow> (ph', None)))
      else if rpc_method req = Some ''tasks/get'' then
        (case params req of
           None \<Rightarrow> (ph, Some (Reply 500 (createError (rpc_id req) (- 32603) TypeErrorText)))
         | Some p \<Rightarrow>
             (case getTask ph (params_taskId p) of
                None \<Rightarrow> (ph, Some (Reply 500 (createError (rpc_id req) (- 32603) (Msg ''Task not found''))))
              | Some task \<Rightarrow> (ph, Some (Reply 200 (createResponse (rpc_id req) (TaskPayload task))))))
      else if rpc_method req = Some ''agents/list'' then
        (ph, Some (Reply 200 (createResponse (rpc_id req) (AgentsPayload (listAgents ph)))))
      else if rpc_method req = Some ''agents/get'' then
        (case params req of
           None \<Rightarrow> (ph, Some (Reply 500 (createError (rpc_id req) (- 32603) TypeErrorText)))
         | Some p \<Rightarrow>
             (case getAgentCard ph (params_agentId p) of
                None \<Rightarrow> (ph, Some (Reply 500 (createError (rpc_id req) (- 32603) (Msg ''Agent not found''))))
              | Some agent_card \<Rightarrow> (ph, Some (Reply 200 (createResponse (rpc_id req) (CardPayload agent_card))))))
      else
        (ph, Some (Reply 400 (createError (rpc_id req) (- 32601)
                     (Msg (''Method not found: '' @ template (rpc_method req)))))))"

definition get_missing_task :: rpc_request where
  "get_missing_task =
     \<lparr>jsonrpc = Some ''2.0'', rpc_id = Some (JStr ''req-1''), rpc_method = Some ''tasks/get'',
      params = Some \<lparr>params_skillId = None, params_input = None, params_sessionId = None,
                      params_taskId = Some ''task_404'', params_agentId = None\<rparr>\<rparr>"


text \<open>The task as the handler receives it: created, then moved to Working.\<close>

definition working_task :: "string option \<Rightarrow> json option \<Rightarrow> string option \<Rightarrow> send_env \<Rightarrow> A2ATask" where
  "working_task skill inp session env =
     updateState (new_A2ATask skill inp session (new_id env) (now_created env) (now_updated env))
       WORKING None (now_first env)"

text \<open>The task object at the moment the handler's promise settles.\<close>

definition awaited_task :: "string option \<Rightarrow> json option \<Rightarrow> string option \<Rightarrow> send_env \<Rightarrow> A2ATask" where
  "awaited_task skill inp session env =
     apply_calls (working_task skill inp session env) (meanwhile env)"





section \<open>Properties of the response manager\<close>

lemma run_calls_Nil [simp]: "run_calls rm [] = rm"
  by (simp add: run_calls_def)

lemma run_calls_snoc [simp]: "run_calls rm (cs @ [c]) = gate_step (run_calls rm cs) c"
  by (simp add: run_calls_def)

lemma run_calls_Cons: "run_calls rm (c # cs) = run_calls (gate_step rm c) cs"
  by (simp add: run_calls_def)

lemma run_calls_append: "run_calls rm (cs @ ds) = run_calls (run_calls rm cs) ds"
  by (simp add: run_calls_def)

text \<open>Calls that are neither a lock nor an unlock of \<open>s\<close> leave the entries of \<open>s\<close> alone.\<close>

lemma pending_after_other_calls:
  "\<forall>c \<in> set cs. c \<noteq> Lock s \<and> \<not> is_unlock_of s c \<Longrightarrow>
   pendingResponses (run_calls rm cs) s = pendingResponses rm s"
proof (induction cs arbitrary: rm)
  case Nil
  then show ?case by simp
next
  case (Cons c cs)
  then have "pendingResponses (gate_step rm c) s = pendingResponses rm s"
    by (cases c) (auto simp: lock_def unlock_def is_unlock_of_def)
  with Cons show ?case by (simp add: run_calls_Cons)
qed

lemma lastTime_after_no_unlock:
  "\<forall>c \<in> set cs. \<not> is_unlock_of s c \<Longrightarrow>
   lastResponseTime (run_calls rm cs) s = lastResponseTime rm s"
proof (induction cs arbitrary: rm)
  case Nil
  then show ?case by simp
next
  case (Cons c cs)
  then have "lastResponseTime (gate_step rm c) s = lastResponseTime rm s"
    by (cases c) (auto simp: lock_def unlock_def is_unlock_of_def)
  with Cons show ?case by (simp add: run_calls_Cons)
qed

text \<open>After any history, the entry of \<open>s\<close> is present exactly when the last call that
  concerns \<open>s\<close> is a lock, and a present entry is always locked.\<close>

lemma pending_characterisation:
  "pendingResponses (run_calls new_ResponseManager cs) s =
     (if \<exists>pre post. cs = pre @ Lock s # post \<and> (\<forall>c \<in> set post. \<not> is_unlock_of s c)
      then Some \<lparr>locked = True, queue = []\<rparr> else None)"
proof (induction cs rule: rev_induct)
  case Nil
  then show ?case by (simp add: new_ResponseManager_def)
next
  case (snoc c cs)
  let ?P = "\<lambda>xs. \<exists>pre post. xs = pre @ Lock s # post \<and> (\<forall>c \<in> set post. \<not> is_unlock_of s c)"
  show ?case
  proof (cases "c = Lock s")
    case True
    have "?P (cs @ [c])"
      using True by (intro exI [of _ cs] exI [of _ "[]"]) simp
    then show ?thesis using True by (simp add: lock_def)
  next
    case notLock: False
    show ?thesis
    proof (cases "is_unlock_of s c")
      case True
      have "\<not> ?P (cs @ [c])"
      proof
        assume "?P (cs @ [c])"
        then obtain pre post where eq: "cs @ [c] = pre @ Lock s # post"
          and nu: "\<forall>c \<in> set post. \<not> is_unlock_of s c" by blast
        show False
        proof (cases post rule: rev_cases)
          case Nil
          with eq have "c = Lock s" by simp
          with notLock show False by simp
        next
          case (snoc post' x)
          with eq have "cs @ [c] = (pre @ Lock s # post') @ [x]" by simp
          then have "c = x" by (simp only: append1_eq_conv)
          with nu snoc True show False by simp
        qed
      qed
      moreover have "pendingResponses (gate_step (run_calls new_ResponseManager cs) c) s = None"
        using True by (cases c) (auto simp: unlock_def is_unlock_of_def)
      ultimately show ?thesis by simp
    next
      case False
      have same: "pendingResponses (gate_step (run_calls new_ResponseManager cs) c) s
                  = pendingResponses (run_calls new_ResponseManager cs) s"
        using False notLock by (cases c) (auto simp: lock_def unlock_def is_unlock_of_def)
      have "?P (cs @ [c]) \<longleftrightarrow> ?P cs"
      proof
        assume "?P (cs @ [c])"
        then obtain pre post where eq: "cs @ [c] = pre @ Lock s # post"
          and nu: "\<forall>c \<in> set post. \<not> is_unlock_of s c" by blast
        show "?P cs"
        proof (cases post rule: rev_cases)
          case Nil
          with eq have "c = Lock s" by simp
          with notLock show ?thesis by simp
        next
          case (snoc post' x)
          with eq have "cs @ [c] = (pre @ Lock s # post') @ [x]" by simp
          then have "cs = pre @ Lock s # post'" by (simp only: append1_eq_conv)
          moreover have "\<forall>c \<in> set post'. \<not> is_unlock_of s c" using nu snoc by simp
          ultimately show ?thesis by blast
        qed
      next
        assume "?P cs"
        then obtain pre post where eq: "cs = pre @ Lock s # post"
          and nu: "\<forall>c \<in> set post. \<not> is_unlock_of s c" by blast
        have "cs @ [c] = pre @ Lock s # (post @ [c])" using eq by simp
        moreover have "\<forall>x \<in> set (post @ [c]). \<not> is_unlock_of s x" using nu False by simp
        ultimately show "?P (cs @ [c])" by blast
      qed
      with same snoc show ?thesis by simp
    qed
  qed
qed

lemma lastTime_after_last_unlock:
  assumes "\<forall>c \<in> set post. \<not> is_unlock_of s c"
  shows "lastResponseTime (run_calls rm (pre @ Unlock s t # post)) s = Some t"
proof -
  have "lastResponseTime (run_calls rm (pre @ Unlock s t # post)) s
        = lastResponseTime (unlock (run_calls rm pre) s t) s"
    using assms by (simp add: run_calls_append run_calls_Cons lastTime_after_no_unlock)
  then show ?thesis by (simp add: unlock_def)
qed

text \<open>
  Claim C7. For every session \<open>s\<close> and every sequence of lock and unlock calls on a fresh
  manager, \<open>canRespond(s)\<close> is false exactly when the sequence contains a \<open>lock(s)\<close>
  that no later \<open>unlock(s)\<close> follows (a lock without a matching unlock); and in any
  manager state, a session with no entry can respond.
\<close>

theorem canRespond_false_iff_unmatched_lock:
  "(canRespond (run_calls new_ResponseManager cs) s = False \<longleftrightarrow>
      (\<exists>pre post. cs = pre @ Lock s # post \<and> (\<forall>c \<in> set post. \<not> is_unlock_of s c)))
   \<and> (pendingResponses rm s = None \<longrightarrow> canRespond rm s = True)"
  by (simp add: canRespond_def pending_characterisation)

theorem canRespond_false_iff_unmatched_lock_witness:
  "canRespond (run_calls new_ResponseManager [Lock ''s1'', Unlock ''s1'' 1000, Lock ''s1'']) ''s1'' = False
   \<and> canRespond (run_calls new_ResponseManager [Lock ''s1'', Unlock ''s1'' 1000]) ''s1'' = True
   \<and> pendingResponses new_ResponseManager ''s1'' = None
   \<and> canRespond new_ResponseManager ''s1'' = True"
proof -
  have ex: "\<exists>pre post. [Lock ''s1'', Unlock ''s1'' 1000, Lock ''s1''] = pre @ Lock ''s1'' # post
              \<and> (\<forall>c \<in> set post. \<not> is_unlock_of ''s1'' c)"
    by (intro exI [of _ "[Lock ''s1'', Unlock ''s1'' 1000]"] exI [of _ "[]"]) simp
  have none: "pendingResponses new_ResponseManager ''s1'' = None"
    by (simp add: new_ResponseManager_def)
  have a: "canRespond (run_calls new_ResponseManager [Lock ''s1'', Unlock ''s1'' 1000, Lock ''s1'']) ''s1'' = False"
    using canRespond_false_iff_unmatched_lock
      [of "[Lock ''s1'', Unlock ''s1'' 1000, Lock ''s1'']" "''s1''" new_ResponseManager] ex
    by blast
  have b: "canRespond new_ResponseManager ''s1'' = True"
    using canRespond_false_iff_unmatched_lock
      [of "[]" "''s1''" new_ResponseManager] none
    by blast
  have c: "canRespond (run_calls new_ResponseManager [Lock ''s1'', Unlock ''s1'' 1000]) ''s1'' = True"
    by (simp add: run_calls_def canRespond_def lock_def unlock_def new_ResponseManager_def)
  from a b c none show ?thesis by simp
qed

text \<open>
  Claim C8. For every session \<open>s\<close>, when the last recorded \<open>unlock(s)\<close> read the clock
  at \<open>t\<close>, \<open>shouldDebounce(s, minGapMs)\<close> called at clock reading \<open>now\<close> is true
  exactly when \<open>now - t < minGapMs\<close>; with the gap omitted it is true exactly within
  2000 ms (the same as passing 2000); and when no \<open>unlock(s)\<close> has been recorded it is
  false. A clock reading is a positive number of milliseconds since 1970, so \<open>t\<close> is not
  0 (the one reading that the source's \<open>!lastTime\<close> test takes for "no entry").
\<close>

theorem shouldDebounce_iff_within_gap:
  "(cs = pre @ Unlock s t # post \<and> (\<forall>c \<in> set post. \<not> is_unlock_of s c) \<and> t \<noteq> 0 \<longrightarrow>
      shouldDebounce (run_calls new_ResponseManager cs) s (Some minGapMs) now = (now - t < minGapMs)
      \<and> shouldDebounce (run_calls new_ResponseManager cs) s (Some 2000) now = (now - t < 2000)
      \<and> shouldDebounce (run_calls new_ResponseManager cs) s None now = (now - t < 2000))
   \<and> ((\<forall>c \<in> set cs. \<not> is_unlock_of s c) \<longrightarrow>
      shouldDebounce (run_calls new_ResponseManager cs) s g now = False)"
proof (intro conjI impI)
  assume h: "cs = pre @ Unlock s t # post \<and> (\<forall>c \<in> set post. \<not> is_unlock_of s c) \<and> t \<noteq> 0"
  then have lt: "lastResponseTime (run_calls new_ResponseManager cs) s = Some t"
    by (simp add: lastTime_after_last_unlock)
  from h have t0: "t \<noteq> 0" by simp
  show "shouldDebounce (run_calls new_ResponseManager cs) s (Some minGapMs) now = (now - t < minGapMs)"
    using lt t0 by (simp add: shouldDebounce_def)
  show "shouldDebounce (run_calls new_ResponseManager cs) s (Some 2000) now = (now - t < 2000)"
    using lt t0 by (simp add: shouldDebounce_def)
  show "shouldDebounce (run_calls new_ResponseManager cs) s None now = (now - t < 2000)"
    using lt t0 by (simp add: shouldDebounce_def)
next
  assume "\<forall>c \<in> set cs. \<not> is_unlock_of s c"
  then have "lastResponseTime (run_calls new_ResponseManager cs) s = None"
    by (simp add: lastTime_after_no_unlock new_ResponseManager_def)
  then show "shouldDebounce (run_calls new_ResponseManager cs) s g now = False"
    by (simp add: shouldDebounce_def)
qed

theorem shouldDebounce_iff_within_gap_witness:
  "shouldDebounce (run_calls new_ResponseManager [Lock ''s1'', Unlock ''s1'' 5000, Lock ''s2''])
       ''s1'' (Some 2000) 6999 = True
   \<and> shouldDebounce (run_calls new_ResponseManager [Lock ''s1'', Unlock ''s1'' 5000, Lock ''s2''])
       ''s1'' (Some 2000) 7000 = False
   \<and> shouldDebounce (run_calls new_ResponseManager [Lock ''s1'', Unlock ''s1'' 5000, Lock ''s2''])
       ''s1'' None 6999 = True
   \<and> shouldDebounce (run_calls new_ResponseManager [Lock ''s1'', Unlock ''s2'' 5000])
       ''s1'' (Some 2000) 5001 = False"
proof -
  let ?cs = "[Lock ''s1'', Unlock ''s1'' 5000, Lock ''s2'']"
  have h: "?cs = [Lock ''s1''] @ Unlock ''s1'' 5000 # [Lock ''s2'']
           \<and> (\<forall>c \<in> set [Lock ''s2'']. \<not> is_unlock_of ''s1'' c) \<and> (5000::int) \<noteq> 0"
    by (simp add: is_unlock_of_def)
  have n: "\<forall>c \<in> set [Lock ''s1'', Unlock ''s2'' 5000]. \<not> is_unlock_of ''s1'' c"
    by (simp add: is_unlock_of_def)
  note early = shouldDebounce_iff_within_gap
      [of ?cs "[Lock ''s1'']" "''s1''" 5000 "[Lock ''s2'']" 2000 6999, THEN conjunct1, THEN mp, OF h]
  note late = shouldDebounce_iff_within_gap
      [of ?cs "[Lock ''s1'']" "''s1''" 5000 "[Lock ''s2'']" 2000 7000, THEN conjunct1, THEN mp, OF h]
  note never = shouldDebounce_iff_within_gap
      [of "[Lock ''s1'', Unlock ''s2'' 5000]" "[]" "''s1''" 0 "[]" 0 5001 "Some 2000",
       THEN conjunct2, THEN mp, OF n]
  have a: "shouldDebounce (run_calls new_ResponseManager ?cs) ''s1'' (Some 2000) 6999 = True"
    using early [THEN conjunct1] by (simp only:) simp
  have b: "shouldDebounce (run_calls new_ResponseManager ?cs) ''s1'' (Some 2000) 7000 = False"
    using late [THEN conjunct1] by (simp only:) simp
  have c: "shouldDebounce (run_calls new_ResponseManager ?cs) ''s1'' None 6999 = True"
    using early [THEN conjunct2, THEN conjunct2] by (simp only:) simp
  from a b c never show ?thesis by (simp only: simp_thms)
qed

text \<open>
  Claim C10. \<open>unlock(s)\<close> is total and unconditional: in every manager state, also one
  in which \<open>s\<close> was never locked, it leaves no pending entry for \<open>s\<close> (so
  \<open>canRespond(s)\<close> is true right after it) and records the clock reading \<open>now\<close> as
  the last-unlock time, so that \<open>shouldDebounce(s, g)\<close> is true at every reading
  \<open>now'\<close> with \<open>now \<le> now' < now + g\<close> (the clock reading \<open>now\<close> being a real,
  non-zero timestamp).
\<close>

theorem unlock_unconditional:
  "canRespond (unlock rm s now) s = True
   \<and> pendingResponses (unlock rm s now) s = None
   \<and> lastResponseTime (unlock rm s now) s = Some now
   \<and> (now \<noteq> 0 \<and> now \<le> now' \<and> now' < now + g \<longrightarrow>
        shouldDebounce (unlock rm s now) s (Some g) now' = True)"
  by (simp add: canRespond_def unlock_def shouldDebounce_def)

theorem unlock_unconditional_witness:
  "pendingResponses new_ResponseManager ''s1'' = None
   \<and> lastResponseTime new_ResponseManager ''s1'' = None
   \<and> canRespond (unlock new_ResponseManager ''s1'' 5000) ''s1'' = True
   \<and> lastResponseTime (unlock new_ResponseManager ''s1'' 5000) ''s1'' = Some 5000
   \<and> shouldDebounce (unlock new_ResponseManager ''s1'' 5000) ''s1'' (Some 2000) 6999 = True"
proof -
  have h: "(5000::int) \<noteq> 0 \<and> (5000::int) \<le> 6999 \<and> (6999::int) < 5000 + 2000"
    by simp
  have fresh: "pendingResponses new_ResponseManager ''s1'' = None
               \<and> lastResponseTime new_ResponseManager ''s1'' = None"
    by (simp add: new_ResponseManager_def)
  show ?thesis
    using unlock_unconditional [of new_ResponseManager "''s1''" 5000 6999 2000] h fresh
    by blast
qed


section \<open>Properties of the message bus\<close>

lemma forEach_stops_at_throw:
  "forEach pre data w = (w1, None) \<Longrightarrow> h data w1 = (w2, Some e) \<Longrightarrow>
   forEach (pre @ h # post) data w = (w2, Some e)"
proof (induction pre arbitrary: w)
  case Nil
  then show ?case by simp
next
  case (Cons g pre)
  obtain w' r where g: "g data w = (w', r)" by (cases "g data w")
  with Cons.prems(1) have r: "r = None" by (cases r) auto
  with g Cons.prems(1) have "forEach pre data w' = (w1, None)" by simp
  from Cons.IH [OF this Cons.prems(2)] g r show ?case by simp
qed

lemma forEach_all_return:
  "\<forall>h \<in> set hs. \<forall>w'. snd (h data w') = None \<Longrightarrow>
   forEach hs data w = (run_in_order hs data w, None)"
proof (induction hs arbitrary: w)
  case Nil
  then show ?case by (simp add: run_in_order_def)
next
  case (Cons h hs)
  obtain w' r where h: "h data w = (w', r)" by (cases "h data w")
  have "snd (h data w) = None" using Cons.prems by simp
  with h have r: "r = None" by simp
  have "forEach hs data w' = (run_in_order hs data w', None)"
    using Cons.IH Cons.prems by simp
  with h r show ?case by (simp add: run_in_order_def)
qed

text \<open>
  Claim C1, as the claim states it, fails: on a topic with two subscribers of which the
  first throws, \<open>publish\<close> ends with the exception and the second subscriber (which
  would have added its name to the trace) is never called.
\<close>

theorem publish_isolation_counterexample:
  "publish example_bus ''topic'' () [] = ([''failing''], Some ''boom'')
   \<and> subscribers example_bus ''topic'' = Some [failing_subscriber, recording_subscriber]
   \<and> recording_subscriber () [''failing''] = ([''failing'', ''recording''], None)"
  by (simp add: publish_def example_bus_def subscribe_def new_MessageBus_def
      failing_subscriber_def recording_subscriber_def)

text \<open>
  Claim C1, amended. For every topic, \<open>publish(topic, payload)\<close> calls the subscribers
  of the topic in subscription order up to and including the first one that throws
  synchronously: the exception leaves \<open>publish\<close> and reaches the publisher, and the
  subscribers after it are not called (the outcome does not depend on them). When no
  subscriber of the topic throws, all of them are called, in order, and \<open>publish\<close>
  returns normally.
\<close>

theorem publish_stops_at_first_throw:
  "(subscribers bus event = Some (pre @ h # post) \<and> forEach pre data w = (w1, None)
      \<and> h data w1 = (w2, Some e)
    \<longrightarrow> publish bus event data w = (w2, Some e))
   \<and> (subscribers bus event = Some hs \<and> (\<forall>h \<in> set hs. \<forall>w'. snd (h data w') = None)
    \<longrightarrow> publish bus event data w = (run_in_order hs data w, None))"
  by (simp add: publish_def forEach_stops_at_throw forEach_all_return)

theorem publish_stops_at_first_throw_witness:
  "publish example_bus ''topic'' () [''earlier''] = ([''earlier'', ''failing''], Some ''boom'')
   \<and> publish (subscribe new_MessageBus ''topic'' recording_subscriber) ''topic'' () []
       = ([''recording''], None)"
proof -
  have subs: "subscribers example_bus ''topic'' = Some ([] @ failing_subscriber # [recording_subscriber])"
    by (simp add: example_bus_def subscribe_def new_MessageBus_def)
  have pre: "forEach [] () [''earlier''] = ([''earlier''], None :: string option)"
    by simp
  have thr: "failing_subscriber () [''earlier''] = ([''earlier'', ''failing''], Some ''boom'')"
    by (simp add: failing_subscriber_def)
  have one: "subscribers (subscribe new_MessageBus ''topic'' recording_subscriber) ''topic''
             = Some [recording_subscriber]"
    by (simp add: subscribe_def new_MessageBus_def)
  have quiet: "\<forall>h \<in> set [recording_subscriber]. \<forall>w'. snd (h () w') = None"
    by (simp add: recording_subscriber_def)
  have a: "publish example_bus ''topic'' () [''earlier''] = ([''earlier'', ''failing''], Some ''boom'')"
    using publish_stops_at_first_throw
      [of example_bus "''topic''" "[]" failing_subscriber "[recording_subscriber]"
          "()" "[''earlier'']" "[''earlier'']" "[''earlier'', ''failing'']" "''boom''",
       THEN conjunct1, THEN mp] subs pre thr
    by (simp only: simp_thms)
  have b: "publish (subscribe new_MessageBus ''topic'' recording_subscriber) ''topic'' () []
           = (run_in_order [recording_subscriber] () [], None)"
    using publish_stops_at_first_throw
      [of "subscribe new_MessageBus ''topic'' recording_subscriber" "''topic''" "[]"
          failing_subscriber "[]" "()" "[]" "[]" "[]" "''boom''" "[recording_subscriber]",
       THEN conjunct2, THEN mp] one quiet
    by (simp only: simp_thms)
  have c: "run_in_order [recording_subscriber] () [] = [''recording'']"
    by (simp add: run_in_order_def recording_subscriber_def)
  from a b c show ?thesis by (simp only: simp_thms)
qed

section \<open>Properties of tasks and of the protocol handler\<close>

lemma updateState_fields:
  "state (updateState task s m now) = s"
  "history (updateState task s m now) = history task @ [\<lparr>entry_state = s, timestamp = now, message = m\<rparr>]"
  "error (updateState task s m now) = error task"
  "task_output (updateState task s m now) = task_output task"
  "task_id (updateState task s m now) = task_id task"
  by (simp_all add: updateState_def)

lemma new_A2ATask_fields:
  "state (new_A2ATask skill inp session i c u) = SUBMITTED"
  "history (new_A2ATask skill inp session i c u) = []"
  "task_id (new_A2ATask skill inp session i c u) = i"
  by (simp_all add: new_A2ATask_def)

text \<open>Every method of the task appends the state it sets and keeps the id.\<close>

lemma apply_call_fields:
  "states_of (apply_call task c) = states_of task @ [call_state c]"
  "state (apply_call task c) = call_state c"
  "task_id (apply_call task c) = task_id task"
  by (cases c; simp add: states_of_def complete_def fail_def updateState_def)+

lemma apply_calls_both:
  "states_of (apply_calls task cs) = states_of task @ map call_state cs
   \<and> task_id (apply_calls task cs) = task_id task"
  by (induction cs arbitrary: task) (simp_all add: apply_calls_def apply_call_fields)

lemma apply_calls_fields:
  "states_of (apply_calls task cs) = states_of task @ map call_state cs"
  "task_id (apply_calls task cs) = task_id task"
  using apply_calls_both [of task cs] by simp_all

lemma working_task_fields:
  "states_of (working_task skill inp session env) = [WORKING]"
  "state (working_task skill inp session env) = WORKING"
  "task_id (working_task skill inp session env) = new_id env"
  by (simp_all add: working_task_def updateState_def new_A2ATask_def states_of_def)

lemma awaited_task_fields:
  "states_of (awaited_task skill inp session env) = WORKING # map call_state (meanwhile env)"
  "task_id (awaited_task skill inp session env) = new_id env"
  by (simp_all add: awaited_task_def apply_calls_fields working_task_fields)


text \<open>The ways in which sendTask ends, case by case.\<close>

lemma sendTask_no_handler:
  assumes "find_handler ph skill = None"
  shows "sendTask ph skill inp session env =
           (let failed = fail (new_A2ATask skill inp session (new_id env) (now_created env) (now_updated env))
                           (Some (''No handler for skill: '' @ template skill)) (now_first env)
            in (store ph failed, Returned failed))"
  using assms by (simp add: sendTask_def Let_def)

lemma sendTask_cases:
  assumes "find_handler ph skill = Some h"
  shows "sendTask ph skill inp session env =
     (case h inp session (working_task skill inp session env) of
        Resolves r \<Rightarrow>
          (store ph (complete (awaited_task skill inp session env) r (now_settled env)),
           Returned (complete (awaited_task skill inp session env) r (now_settled env)))
      | Rejects (ErrorObject m) \<Rightarrow>
          (store ph (fail (awaited_task skill inp session env) (Some m) (now_settled env)),
           Returned (fail (awaited_task skill inp session env) (Some m) (now_settled env)))
      | Rejects ThrownOther \<Rightarrow>
          (store ph (fail (awaited_task skill inp session env) None (now_settled env)),
           Returned (fail (awaited_task skill inp session env) None (now_settled env)))
      | Rejects ThrownNullish \<Rightarrow> (store ph (awaited_task skill inp session env), RaisedTypeError)
      | NeverSettles \<Rightarrow> (store ph (awaited_task skill inp session env), Hangs))"
  using assms
  by (simp add: sendTask_def Let_def working_task_def awaited_task_def
      split: handler_outcome.splits thrown.splits)

lemma states_of_complete: "states_of (complete task r now) = states_of task @ [COMPLETED]"
  by (simp add: states_of_def complete_def updateState_def)

lemma states_of_fail: "states_of (fail task e now) = states_of task @ [FAILED]"
  by (simp add: states_of_def fail_def updateState_def)

lemma state_complete: "state (complete task r now) = COMPLETED"
  by (simp add: complete_def updateState_def)

lemma state_fail: "state (fail task e now) = FAILED"
  by (simp add: fail_def updateState_def)

lemma sendTask_returned_shape:
  assumes "snd (sendTask ph skill inp session env) = Returned t"
  shows "(find_handler ph skill = None \<and> state t = FAILED \<and> states_of t = [FAILED])
         \<or> (find_handler ph skill \<noteq> None \<and> (state t = COMPLETED \<or> state t = FAILED)
             \<and> states_of t = WORKING # map call_state (meanwhile env) @ [state t])"
proof (cases "find_handler ph skill")
  case None
  from sendTask_no_handler [OF None, of inp session env] assms
  have "t = fail (new_A2ATask skill inp session (new_id env) (now_created env) (now_updated env))
                (Some (''No handler for skill: '' @ template skill)) (now_first env)"
    by (simp add: Let_def)
  then show ?thesis using None
    by (simp add: states_of_fail state_fail) (simp add: states_of_def new_A2ATask_def)
next
  case (Some h)
  from sendTask_cases [OF Some, of inp session env] assms
  have "(\<exists>r. t = complete (awaited_task skill inp session env) r (now_settled env))
        \<or> (\<exists>e. t = fail (awaited_task skill inp session env) e (now_settled env))"
    by (auto split: handler_outcome.splits thrown.splits)
  then show ?thesis using Some
    by (auto simp: states_of_complete states_of_fail state_complete state_fail awaited_task_fields)
qed

lemma sendTask_stored:
  "\<exists>t. tasks (fst (sendTask ph skill inp session env)) (new_id env) = Some t
       \<and> (snd (sendTask ph skill inp session env) = Returned t
            \<or> (returned (snd (sendTask ph skill inp session env)) = None
                \<and> t = awaited_task skill inp session env))"
proof (cases "find_handler ph skill")
  case None
  then show ?thesis
    by (simp add: sendTask_no_handler Let_def store_def fail_def updateState_def new_A2ATask_def)
next
  case (Some h)
  have id1: "\<And>r. task_id (complete (awaited_task skill inp session env) r (now_settled env)) = new_id env"
    by (simp add: complete_def updateState_def awaited_task_fields)
  have id2: "\<And>e. task_id (fail (awaited_task skill inp session env) e (now_settled env)) = new_id env"
    by (simp add: fail_def updateState_def awaited_task_fields)
  show ?thesis
    by (simp add: sendTask_cases [OF Some] store_def id1 id2 awaited_task_fields returned_def
        split: handler_outcome.splits thrown.splits)
qed

text \<open>
  Claim C3, as the claim states it, fails on the text of the message: the stored error
  starts with a capital letter.
\<close>

theorem no_handler_message_counterexample:
  "map_option error (returned (snd (sendTask example_handler (Some ''skip_song'')
       (Some happy_input) (Some ''s1'') example_env)))
     = Some (Some ''No handler for skill: skip_song'')
   \<and> map_option error (returned (snd (sendTask example_handler (Some ''skip_song'')
       (Some happy_input) (Some ''s1'') example_env)))
     \<noteq> Some (Some ''no handler for skill: skip_song'')"
  by (simp add: sendTask_def Let_def find_handler_def example_handler_def
      new_A2AProtocolHandler_def fail_def updateState_def new_A2ATask_def returned_def
      template_def example_env_def)

text \<open>
  Claim C3, amended. For every dispatch of a task whose skill id \<open>k\<close> has no registered
  handler, sendTask returns the task, moved directly from Submitted to Failed, with the
  stored error message exactly \<open>No handler for skill: k\<close> (capital N); the history has
  the single entry Failed, so Working never appears in it.
\<close>

theorem sendTask_unknown_skill:
  "agentHandlers ph k = None \<Longrightarrow>
   \<exists>t. snd (sendTask ph (Some k) inp session env) = Returned t
     \<and> tasks (fst (sendTask ph (Some k) inp session env)) (new_id env) = Some t
     \<and> state t = FAILED
     \<and> error t = Some (''No handler for skill: '' @ k)
     \<and> map message (history t) = [Some (''No handler for skill: '' @ k)]
     \<and> states_of t = [FAILED]
     \<and> WORKING \<notin> set (states_of t)"
  by (simp add: sendTask_def Let_def find_handler_def store_def fail_def updateState_def
      new_A2ATask_def states_of_def template_def)

theorem sendTask_unknown_skill_witness:
  "agentHandlers example_handler ''skip_song'' = None
   \<and> map_option state (returned (snd (sendTask example_handler (Some ''skip_song'')
         (Some happy_input) (Some ''s1'') example_env))) = Some FAILED
   \<and> map_option states_of (returned (snd (sendTask example_handler (Some ''skip_song'')
         (Some happy_input) (Some ''s1'') example_env))) = Some [FAILED]
   \<and> map_option error (returned (snd (sendTask example_handler (Some ''skip_song'')
         (Some happy_input) (Some ''s1'') example_env))) = Some (Some ''No handler for skill: skip_song'')"
proof -
  have none: "agentHandlers example_handler ''skip_song'' = None"
    by (simp add: example_handler_def new_A2AProtocolHandler_def)
  from sendTask_unknown_skill [OF none, of "Some happy_input" "Some ''s1''" example_env]
  obtain t where t: "snd (sendTask example_handler (Some ''skip_song'') (Some happy_input)
                       (Some ''s1'') example_env) = Returned t"
    and st: "state t = FAILED" and hs: "states_of t = [FAILED]"
    and er: "error t = Some (''No handler for skill: '' @ ''skip_song'')"
    by blast
  from none t st hs er show ?thesis by (simp add: returned_def)
qed


lemma tasks_send_route_missing_skill:
  assumes "falsy_string (body_skillId req)"
  shows "tasks_send_route ph req env =
           (ph, Some (Reply 400 (ErrorMsg (body_id req) (- 32602) (Msg ''Missing skillId''))))"
  using assms by (simp add: tasks_send_route_def createError_def)


text \<open>
  Whenever the handler is missing, returns, or throws anything but \<open>null\<close> and
  \<open>undefined\<close>, sendTask returns the task in a terminal state, whatever reached the
  task in the meantime.
\<close>

lemma sendTask_settled:
  "find_handler ph skill = None \<Longrightarrow>
     \<exists>t. snd (sendTask ph skill inp session env) = Returned t \<and> state t = FAILED
       \<and> error t = Some (''No handler for skill: '' @ template skill)"
  "find_handler ph skill = Some h \<Longrightarrow> h inp session (working_task skill inp session env) = Resolves r \<Longrightarrow>
     \<exists>t. snd (sendTask ph skill inp session env) = Returned t \<and> state t = COMPLETED
       \<and> task_output t = r"
  "find_handler ph skill = Some h \<Longrightarrow>
   h inp session (working_task skill inp session env) = Rejects (ErrorObject m) \<Longrightarrow>
     \<exists>t. snd (sendTask ph skill inp session env) = Returned t \<and> state t = FAILED
       \<and> error t = Some m"
  "find_handler ph skill = Some h \<Longrightarrow>
   h inp session (working_task skill inp session env) = Rejects ThrownOther \<Longrightarrow>
     \<exists>t. snd (sendTask ph skill inp session env) = Returned t \<and> state t = FAILED
       \<and> error t = None"
  "snd (sendTask ph skill inp session env) = Returned t \<Longrightarrow> state t = COMPLETED \<or> state t = FAILED"
proof -
  show "find_handler ph skill = None \<Longrightarrow>
     \<exists>t. snd (sendTask ph skill inp session env) = Returned t \<and> state t = FAILED
       \<and> error t = Some (''No handler for skill: '' @ template skill)"
    by (simp add: sendTask_no_handler Let_def fail_def updateState_def)
  show "find_handler ph skill = Some h \<Longrightarrow> h inp session (working_task skill inp session env) = Resolves r \<Longrightarrow>
     \<exists>t. snd (sendTask ph skill inp session env) = Returned t \<and> state t = COMPLETED
       \<and> task_output t = r"
    by (simp add: sendTask_cases complete_def updateState_def)
  show "find_handler ph skill = Some h \<Longrightarrow>
   h inp session (working_task skill inp session env) = Rejects (ErrorObject m) \<Longrightarrow>
     \<exists>t. snd (sendTask ph skill inp session env) = Returned t \<and> state t = FAILED
       \<and> error t = Some m"
    by (simp add: sendTask_cases fail_def updateState_def)
  show "find_handler ph skill = Some h \<Longrightarrow>
   h inp session (working_task skill inp session env) = Rejects ThrownOther \<Longrightarrow>
     \<exists>t. snd (sendTask ph skill inp session env) = Returned t \<and> state t = FAILED
       \<and> error t = None"
    by (simp add: sendTask_cases fail_def updateState_def)
  show "snd (sendTask ph skill inp session env) = Returned t \<Longrightarrow> state t = COMPLETED \<or> state t = FAILED"
    using sendTask_returned_shape [of ph skill inp session env t] by blast
qed



lemma handleTask_events:
  assumes "tasks ph tid = Some task"
  shows "tasks (handleTaskComplete ph tid out now) tid = Some (apply_call task (CompleteCall out now))"
    and "tasks (handleTaskFail ph tid err now) tid = Some (apply_call task (FailCall err now))"
  using assms by (simp_all add: handleTaskComplete_def handleTaskFail_def)

text \<open>
  Claim C2, as the claim states it, fails in three places. The constructor leaves the
  history empty instead of seeding it with Submitted. \<open>handleTaskComplete\<close> on a task
  that sendTask has already completed adds a second terminal entry, and so does an
  \<open>a2a:task:fail\<close> event that reaches the task while its handler is awaited: the
  history is then Working, Failed, Completed. And the step that sendTask takes when no
  handler is registered, Submitted to Failed, is not an edge of the graph Submitted to
  Working to Completed or Failed.
\<close>

theorem task_history_counterexample:
  "history (new_A2ATask (Some ''play_by_mood'') (Some happy_input) (Some ''s1'') ''task_1'' 1000 1000) = []
   \<and> map_option states_of
        (tasks (handleTaskComplete
                  (fst (sendTask example_handler (Some ''play_by_mood'') (Some happy_input)
                          (Some ''s1'') example_env))
                  ''task_1'' (Some happy_output) 2000) ''task_1'')
       = Some [WORKING, COMPLETED, COMPLETED]
   \<and> map_option terminal_entries
        (tasks (handleTaskComplete
                  (fst (sendTask example_handler (Some ''play_by_mood'') (Some happy_input)
                          (Some ''s1'') example_env))
                  ''task_1'' (Some happy_output) 2000) ''task_1'')
       = Some 2
   \<and> map_option states_of
        (returned (snd (sendTask example_handler (Some ''play_by_mood'') (Some happy_input)
                          (Some ''s1'') racing_env)))
       = Some [WORKING, FAILED, COMPLETED]
   \<and> map_option terminal_entries
        (returned (snd (sendTask example_handler (Some ''play_by_mood'') (Some happy_input)
                          (Some ''s1'') racing_env)))
       = Some 2
   \<and> map_option states_of
        (returned (snd (sendTask example_handler (Some ''skip_song'') (Some happy_input)
                          (Some ''s1'') example_env)))
       = Some [FAILED]
   \<and> \<not> walk spec_successor [SUBMITTED, FAILED]"
  by (simp add: sendTask_def Let_def find_handler_def example_handler_def
      new_A2AProtocolHandler_def fail_def complete_def updateState_def new_A2ATask_def
      returned_def template_def example_env_def racing_env_def handleTaskComplete_def store_def
      states_of_def terminal_entries_def terminal_def echo_handler_def apply_calls_def)

text \<open>
  Claim C2, amended. The constructor produces a task in state Submitted with an empty
  history (the initial state is not recorded). Every transition (\<open>updateState\<close>,
  \<open>complete\<close>, \<open>fail\<close>, also when \<open>handleTaskComplete\<close> or \<open>handleTaskFail\<close> make it)
  appends exactly one entry, which carries the new state, and leaves the earlier entries
  as they are. The history of a task that sendTask returns is Failed alone when no
  handler is registered, and otherwise Working, then one entry for each call that
  reached the task while the handler was awaited, then the final Completed or Failed,
  which is the task's state. So when nothing else calls the task in the meantime, its
  history, read after the unrecorded Submitted, is a walk of the graph Submitted to
  Working to Completed or Failed, extended by the direct step Submitted to Failed, with
  exactly one terminal entry (and the stored task has at most one).
\<close>

theorem task_history_walk:
  "state (new_A2ATask skill inp session i c u) = SUBMITTED
   \<and> history (new_A2ATask skill inp session i c u) = []
   \<and> state (updateState task s msg now) = s
   \<and> history (updateState task s msg now)
       = history task @ [\<lparr>entry_state = s, timestamp = now, message = msg\<rparr>]
   \<and> history (complete task out now)
       = history task @ [\<lparr>entry_state = COMPLETED, timestamp = now, message = None\<rparr>]
   \<and> history (fail task err now)
       = history task @ [\<lparr>entry_state = FAILED, timestamp = now, message = err\<rparr>]
   \<and> (tasks ph tid = Some task \<longrightarrow>
         tasks (handleTaskComplete ph tid out now) tid = Some (complete task out now)
         \<and> tasks (handleTaskFail ph tid err now) tid = Some (fail task err now))
   \<and> states_of (apply_calls task calls) = states_of task @ map call_state calls
   \<and> (snd (sendTask ph skill inp session env) = Returned t \<longrightarrow>
         states_of t \<noteq> [] \<and> last (states_of t) = state t \<and> terminal (state t)
         \<and> states_of t =
             (if find_handler ph skill = None then [FAILED]
              else WORKING # map call_state (meanwhile env) @ [state t])
         \<and> terminal_entries t =
             (if find_handler ph skill = None then 1
              else length (filter terminal (WORKING # map call_state (meanwhile env))) + 1))
   \<and> (meanwhile env = [] \<and> snd (sendTask ph skill inp session env) = Returned t \<longrightarrow>
         walk dispatch_successor (SUBMITTED # states_of t) \<and> terminal_entries t = 1)
   \<and> (meanwhile env = [] \<and> tasks (fst (sendTask ph skill inp session env)) (new_id env) = Some t' \<longrightarrow>
         walk dispatch_successor (SUBMITTED # states_of t') \<and> terminal_entries t' \<le> 1)"
proof (intro conjI impI)
  assume "tasks ph tid = Some task"
  from handleTask_events [OF this]
  show "tasks (handleTaskComplete ph tid out now) tid = Some (complete task out now)"
    and "tasks (handleTaskFail ph tid err now) tid = Some (fail task err now)"
    by simp_all
next
  show "states_of (apply_calls task calls) = states_of task @ map call_state calls"
    by (rule apply_calls_fields(1))
next
  assume r: "snd (sendTask ph skill inp session env) = Returned t"
  note shape = sendTask_returned_shape [OF r]
  show "states_of t \<noteq> []" using shape by auto
  show "last (states_of t) = state t" using shape by auto
  show "terminal (state t)" using shape by (auto simp: terminal_def)
  show "states_of t =
             (if find_handler ph skill = None then [FAILED]
              else WORKING # map call_state (meanwhile env) @ [state t])"
    using shape by auto
  then show "terminal_entries t =
             (if find_handler ph skill = None then 1
              else length (filter terminal (WORKING # map call_state (meanwhile env))) + 1)"
    using shape by (auto simp: terminal_entries_def terminal_def)
next
  assume "meanwhile env = [] \<and> snd (sendTask ph skill inp session env) = Returned t"
  then have m: "meanwhile env = []" and r: "snd (sendTask ph skill inp session env) = Returned t"
    by simp_all
  from sendTask_returned_shape [OF r] m
  show "walk dispatch_successor (SUBMITTED # states_of t)" and "terminal_entries t = 1"
    by (auto simp: terminal_entries_def terminal_def)
next
  assume "meanwhile env = [] \<and> tasks (fst (sendTask ph skill inp session env)) (new_id env) = Some t'"
  then have m: "meanwhile env = []"
    and st: "tasks (fst (sendTask ph skill inp session env)) (new_id env) = Some t'"
    by simp_all
  from sendTask_stored [of ph skill inp session env] st
  consider "snd (sendTask ph skill inp session env) = Returned t'"
    | "t' = awaited_task skill inp session env"
    by auto
  then have "states_of t' \<in> {[FAILED], [WORKING, COMPLETED], [WORKING, FAILED], [WORKING]}"
  proof cases
    case 1
    from sendTask_returned_shape [OF this] m show ?thesis by auto
  next
    case 2
    then show ?thesis using m by (simp add: awaited_task_fields)
  qed
  then show "walk dispatch_successor (SUBMITTED # states_of t')" and "terminal_entries t' \<le> 1"
    by (auto simp: terminal_entries_def terminal_def)
qed (simp_all add: new_A2ATask_def updateState_def complete_def fail_def)

theorem task_history_walk_witness:
  "map_option states_of (returned (snd (sendTask example_handler (Some ''play_by_mood'')
       (Some happy_input) (Some ''s1'') example_env))) = Some [WORKING, COMPLETED]
   \<and> walk dispatch_successor [SUBMITTED, WORKING, COMPLETED]
   \<and> map_option terminal_entries (returned (snd (sendTask example_handler (Some ''play_by_mood'')
       (Some happy_input) (Some ''s1'') example_env))) = Some 1
   \<and> map_option terminal_entries (tasks (fst (sendTask example_handler (Some ''play_by_mood'')
       (Some happy_input) (Some ''s1'') example_env)) ''task_1'') = Some 1
   \<and> meanwhile example_env = []
   \<and> map_option states_of
        (tasks (handleTaskFail (fst (sendTask example_handler (Some ''play_by_mood'')
                 (Some happy_input) (Some ''s1'') example_env)) ''task_1'' (Some ''late'') 2000)
           ''task_1'') = Some [WORKING, COMPLETED, FAILED]"
proof -
  let ?r = "sendTask example_handler (Some ''play_by_mood'') (Some happy_input) (Some ''s1'') example_env"
  let ?t = "complete (awaited_task (Some ''play_by_mood'') (Some happy_input) (Some ''s1'') example_env)
              (Some happy_output) (now_settled example_env)"
  have f1: "find_handler example_handler (Some ''play_by_mood'') = Some echo_handler"
    by (simp add: find_handler_def example_handler_def)
  have m: "meanwhile example_env = []" and id: "new_id example_env = ''task_1''"
    by (simp_all add: example_env_def)
  have ret: "snd ?r = Returned ?t"
    by (simp add: sendTask_cases [OF f1] echo_handler_def)
  have sts: "states_of ?t = [WORKING, COMPLETED]"
    by (simp add: states_of_complete awaited_task_fields m)
  have stored: "tasks (fst ?r) (new_id example_env) = Some ?t"
    using sendTask_stored [of example_handler "Some ''play_by_mood''" "Some happy_input"
        "Some ''s1''" example_env] ret
    by (auto simp: returned_def)
  note inst = task_history_walk
      [where ph = example_handler and skill = "Some ''play_by_mood''" and inp = "Some happy_input"
         and session = "Some ''s1''" and env = example_env and t = ?t and t' = ?t]
  from inst m ret have a: "walk dispatch_successor (SUBMITTED # states_of ?t) \<and> terminal_entries ?t = 1"
    by blast
  from inst m stored have b: "terminal_entries ?t \<le> 1"
    by blast
  note inst2 = task_history_walk
      [where ph = "fst ?r" and tid = "''task_1''" and task = ?t and err = "Some ''late''" and now = 2000]
  from inst2 stored id
  have c: "tasks (handleTaskFail (fst ?r) ''task_1'' (Some ''late'') 2000) ''task_1''
           = Some (fail ?t (Some ''late'') 2000)"
    by simp
  have d: "states_of (fail ?t (Some ''late'') 2000) = [WORKING, COMPLETED, FAILED]"
    by (simp add: states_of_fail sts)
  from a b sts ret stored id m c d show ?thesis by (simp add: returned_def)
qed

text \<open>
  Claim C4 against the code: for a task id that names no task, the REST route answers
  with code -32001 and the JSON-RPC method \<open>tasks/get\<close> with code -32603; neither
  answers -32002.
\<close>

theorem task_not_found_codes:
  "get_task_route example_handler ''task_404''
     = Reply 404 (ErrorMsg None (- 32001) (Msg ''Task not found''))
   \<and> snd (rpc_route example_handler get_missing_task example_env)
     = Some (Reply 500 (ErrorMsg (Some (JStr ''req-1'')) (- 32603) (Msg ''Task not found'')))
   \<and> error_code (get_task_route example_handler ''task_404'') \<noteq> Some (- 32002)
   \<and> map_option error_code (snd (rpc_route example_handler get_missing_task example_env))
     \<noteq> Some (Some (- 32002))"
  by (simp add: get_task_route_def rpc_route_def getTask_def get_missing_task_def
      example_handler_def new_A2AProtocolHandler_def createError_def error_code_def)

section \<open>Properties of the speech agent\<close>

lemma sum_squares_acc: "sum_squares samples a = a + sum_squares samples 0"
proof (induction samples arbitrary: a)
  case Nil
  then show ?case by simp
next
  case (Cons s samples)
  have "sum_squares (s # samples) a = (a + sint s * sint s) + sum_squares samples 0"
    using Cons.IH [of "a + sint s * sint s"] by simp
  also have "\<dots> = a + sum_squares (s # samples) 0"
    using Cons.IH [of "0 + sint s * sint s"] by simp
  finally show ?case .
qed

lemma sum_squares_Cons: "sum_squares (s # samples) 0 = sint s * sint s + sum_squares samples 0"
  using sum_squares_acc [of samples "sint s * sint s"] by simp

lemma sum_squares_nonneg: "0 \<le> sum_squares samples 0"
  by (induction samples) (simp_all add: sum_squares_Cons del: sum_squares.simps(2))

lemma sint_square_le: "sint (s :: 16 word) * sint s \<le> 32768 * 32768"
proof -
  have lo: "- 32768 \<le> sint s" using sint_ge [of s] by simp
  have hi: "sint s \<le> 32767" using sint_lt [of s] by simp
  have "\<bar>sint s\<bar> \<le> 32768" using lo hi by simp
  then have "\<bar>sint s\<bar> * \<bar>sint s\<bar> \<le> 32768 * 32768"
    by (intro mult_mono) simp_all
  then show ?thesis by (simp add: abs_mult_self_eq)
qed

lemma sum_squares_le: "sum_squares samples 0 \<le> int (length samples) * (32768 * 32768)"
proof (induction samples)
  case Nil
  then show ?case by simp
next
  case (Cons s samples)
  have "sum_squares (s # samples) 0 = sint s * sint s + sum_squares samples 0"
    by (rule sum_squares_Cons)
  also have "\<dots> \<le> 32768 * 32768 + int (length samples) * (32768 * 32768)"
    using sint_square_le [of s] Cons.IH by linarith
  also have "\<dots> = int (length (s # samples)) * (32768 * 32768)"
    by (simp add: algebra_simps)
  finally show ?case .
qed

lemma sum_squares_const:
  "\<forall>s \<in> set samples. sint s = v \<Longrightarrow> sum_squares samples 0 = int (length samples) * (v * v)"
proof (induction samples)
  case Nil
  then show ?case by simp
next
  case (Cons s samples)
  then show ?case by (simp add: sum_squares_Cons algebra_simps del: sum_squares.simps(2))
qed

lemma level_of_constant:
  assumes "samples_of buffer \<noteq> []" and "\<forall>s \<in> set (samples_of buffer). sint s = v"
  shows "calculateAudioLevel buffer = Some (\<bar>real_of_int v\<bar> / 32768)"
proof -
  let ?n = "length (samples_of buffer)"
  have n: "0 < ?n" using assms(1) by simp
  have "real_of_int (sum_squares (samples_of buffer) 0) / real ?n = real_of_int v * real_of_int v"
    using n by (simp add: sum_squares_const [OF assms(2)])
  then have "sqrt (real_of_int (sum_squares (samples_of buffer) 0) / real ?n) = \<bar>real_of_int v\<bar>"
    by simp
  then show ?thesis using n by (simp add: calculateAudioLevel_def Let_def)
qed

lemma level_bounds:
  assumes "samples_of buffer \<noteq> []"
  shows "\<exists>l. calculateAudioLevel buffer = Some l \<and> 0 \<le> l \<and> l \<le> 1"
proof -
  let ?n = "length (samples_of buffer)"
  let ?q = "real_of_int (sum_squares (samples_of buffer) 0) / real ?n"
  have n: "0 < ?n" using assms by simp
  have q0: "0 \<le> ?q" using sum_squares_nonneg [of "samples_of buffer"] by simp
  have "real_of_int (sum_squares (samples_of buffer) 0) \<le> real_of_int (int ?n * (32768 * 32768))"
    using sum_squares_le [of "samples_of buffer"] by (simp only: of_int_le_iff)
  then have "real_of_int (sum_squares (samples_of buffer) 0) \<le> (32768 * 32768) * real ?n"
    by simp
  then have q1: "?q \<le> 32768 * 32768" using n by (simp add: pos_divide_le_eq)
  have "sqrt ?q \<le> sqrt (32768 * 32768)" using q1 by (simp only: real_sqrt_le_iff)
  then have s1: "sqrt ?q \<le> 32768" by simp
  have s0: "0 \<le> sqrt ?q" using q0 by simp
  have "calculateAudioLevel buffer = Some (sqrt ?q / 32768)"
    using n by (simp add: calculateAudioLevel_def Let_def)
  moreover have "0 \<le> sqrt ?q / 32768" using s0 by simp
  moreover have "sqrt ?q / 32768 \<le> 1" using s1 by simp
  ultimately show ?thesis by blast
qed

lemma samples_of_pairs: "samples_of (concat (replicate n [lo, hi])) = replicate n (word_cat hi lo)"
  by (induction n) simp_all

lemma sint_max_sample: "sint (word_cat (127 :: 8 word) (255 :: 8 word) :: 16 word) = 32767"
  by (simp add: word_cat_eq)

lemma sint_zero_sample: "sint (word_cat (0 :: 8 word) (0 :: 8 word) :: 16 word) = 0"
  by (simp add: word_cat_eq)

lemma sum_squares_sum_list:
  "sum_squares samples 0 = (\<Sum>s\<leftarrow>samples. sint s * sint s)"
  by (induction samples) (simp_all add: sum_squares_Cons del: sum_squares.simps(2))

lemma uint_cat16: "uint (word_cat (hi :: 8 word) (lo :: 8 word) :: 16 word) = uint hi * 256 + uint lo"
proof -
  have lo: "0 \<le> uint lo" "uint lo < 256" using uint_lt2p [of lo] by simp_all
  have hi: "0 \<le> uint hi" "uint hi < 256" using uint_lt2p [of hi] by simp_all
  have "uint (word_cat hi lo :: 16 word) = take_bit 16 (concat_bit 8 (uint lo) (uint hi))"
    by (simp add: word_cat_eq' uint_word_of_int_eq)
  also have "concat_bit 8 (uint lo) (uint hi) = uint lo + uint hi * 256"
    using lo by (simp add: concat_bit_eq take_bit_eq_mod push_bit_eq_mult)
  also have "take_bit 16 (uint lo + uint hi * 256) = uint lo + uint hi * 256"
    using lo hi by (simp add: take_bit_eq_mod)
  finally show ?thesis by simp
qed

lemma sint_from_uint16:
  "sint (w :: 16 word) = (if uint w < 32768 then uint w else uint w - 65536)"
proof -
  have b: "0 \<le> uint w" "uint w < 65536" using uint_lt2p [of w] by simp_all
  have "sint w = take_bit 16 (uint w + 32768) - 32768"
    by (simp add: sint_uint signed_take_bit_eq_take_bit_shift)
  also have "take_bit 16 (uint w + 32768) = (uint w + 32768) mod 65536"
    by (simp add: take_bit_eq_mod)
  also have "(uint w + 32768) mod 65536 = (if uint w < 32768 then uint w + 32768 else uint w - 32768)"
  proof (cases "uint w < 32768")
    case True
    then have "(uint w + 32768) mod 65536 = uint w + 32768"
      using b by (intro mod_pos_pos_trivial) simp_all
    then show ?thesis using True by simp
  next
    case False
    have e: "uint w + 32768 = (uint w - 32768) + 65536" by linarith
    have "(uint w + 32768) mod 65536 = ((uint w - 32768) + 65536) mod 65536"
      by (rule arg_cong [where f = "\<lambda>x. x mod 65536", OF e])
    also have "\<dots> = (uint w - 32768) mod 65536" by (rule mod_add_self2)
    also have "\<dots> = uint w - 32768"
      using False b by (intro mod_pos_pos_trivial) simp_all
    finally show ?thesis using False by simp
  qed
  finally show ?thesis by simp
qed

lemma sint_cat16:
  "sint (word_cat (hi :: 8 word) (lo :: 8 word) :: 16 word) =
     (if uint hi * 256 + uint lo < 32768 then uint hi * 256 + uint lo
      else uint hi * 256 + uint lo - 65536)"
  by (simp only: sint_from_uint16 uint_cat16)

lemma samples_of_length: "length (samples_of buffer) = length buffer div 2"
  by (induction buffer rule: samples_of.induct) simp_all

lemma samples_of_Nil_iff: "samples_of buffer = [] \<longleftrightarrow> length buffer div 2 = 0"
  using samples_of_length [of buffer] by (simp only: length_0_conv [symmetric])

lemma samples_of_nth:
  "i < length buffer div 2 \<Longrightarrow>
   samples_of buffer ! i = word_cat (buffer ! (2 * i + 1)) (buffer ! (2 * i))"
proof (induction buffer arbitrary: i rule: samples_of.induct)
  case (1 lo hi rest)
  show ?case
  proof (cases i)
    case 0
    then show ?thesis by simp
  next
    case (Suc j)
    with "1.prems" have "j < length rest div 2" by simp
    from "1.IH" [OF this] Suc show ?thesis by simp
  qed
qed simp_all

lemma samples_of_decode:
  "i < length buffer div 2 \<Longrightarrow> sint (samples_of buffer ! i) = int16_at buffer i"
  by (simp add: samples_of_nth sint_cat16 int16_at_def Let_def algebra_simps)

lemma samples_of_map:
  "map sint (samples_of buffer) = map (int16_at buffer) [0..<length buffer div 2]"
  by (rule nth_equalityI) (simp_all add: samples_of_length samples_of_decode)

lemma sum_squares_decode:
  "sum_squares (samples_of buffer) 0 = (\<Sum>i\<leftarrow>[0..<length buffer div 2]. int16_at buffer i * int16_at buffer i)"
proof -
  have "sum_squares (samples_of buffer) 0 = (\<Sum>s\<leftarrow>samples_of buffer. sint s * sint s)"
    by (rule sum_squares_sum_list)
  also have "\<dots> = (\<Sum>v\<leftarrow>map sint (samples_of buffer). v * v)"
    by (simp add: comp_def)
  also have "\<dots> = (\<Sum>i\<leftarrow>[0..<length buffer div 2]. int16_at buffer i * int16_at buffer i)"
    by (simp only: samples_of_map) (simp add: comp_def)
  finally show ?thesis .
qed

text \<open>
  For a frame of at least two bytes the level is the root of the mean of the squares of
  its little-endian signed 16-bit samples, divided by 32768, and lies between 0 and 1.
\<close>

lemma audio_level_formula:
  assumes "2 \<le> length buffer"
  shows "calculateAudioLevel buffer =
           Some (sqrt (real_of_int (\<Sum>i\<leftarrow>[0..<length buffer div 2]. int16_at buffer i * int16_at buffer i)
                       / real (length buffer div 2)) / 32768)"
    and "\<exists>l. calculateAudioLevel buffer = Some l \<and> 0 \<le> l \<and> l \<le> 1"
proof -
  have ne: "samples_of buffer \<noteq> []" using assms by (simp add: samples_of_Nil_iff)
  then show "calculateAudioLevel buffer =
           Some (sqrt (real_of_int (\<Sum>i\<leftarrow>[0..<length buffer div 2]. int16_at buffer i * int16_at buffer i)
                       / real (length buffer div 2)) / 32768)"
    by (simp add: calculateAudioLevel_def Let_def sum_squares_decode samples_of_length)
  from ne show "\<exists>l. calculateAudioLevel buffer = Some l \<and> 0 \<le> l \<and> l \<le> 1"
    by (rule level_bounds)
qed

lemma audio_level_short_frame:
  "length buffer < 2 \<Longrightarrow> calculateAudioLevel buffer = None"
  by (simp add: calculateAudioLevel_def Let_def samples_of_Nil_iff)

lemma audio_level_examples:
  "calculateAudioLevel [0, 0, 0, 0] = Some 0"
  "calculateAudioLevel [255, 127, 255, 127] = Some (32767 / 32768)"
  "calculateAudioLevel [0, 128] = Some 1"
  "calculateAudioLevel [3, 0, 252, 255] = Some (sqrt (25 / 2) / 32768)"
proof -
  have i: "int16_at [0, 0, 0, 0] 0 = 0" "int16_at [0, 0, 0, 0] (Suc 0) = 0"
    "int16_at [255, 127, 255, 127] 0 = 32767" "int16_at [255, 127, 255, 127] (Suc 0) = 32767"
    "int16_at [0, 128] 0 = - 32768"
    "int16_at [3, 0, 252, 255] 0 = 3" "int16_at [3, 0, 252, 255] (Suc 0) = - 4"
    by (simp_all add: int16_at_def)
  have u: "[0..<2] = [0, 1]" "[0..<1] = [0]" by (simp_all add: upt_rec)
  show "calculateAudioLevel [0, 0, 0, 0] = Some 0"
    using audio_level_formula(1) [of "[0, 0, 0, 0]"] by (simp add: u i)
  show "calculateAudioLevel [255, 127, 255, 127] = Some (32767 / 32768)"
    using audio_level_formula(1) [of "[255, 127, 255, 127]"] by (simp add: u i)
  show "calculateAudioLevel [0, 128] = Some 1"
    using audio_level_formula(1) [of "[0, 128]"] by (simp add: u i)
  show "calculateAudioLevel [3, 0, 252, 255] = Some (sqrt (25 / 2) / 32768)"
    using audio_level_formula(1) [of "[3, 0, 252, 255]"] by (simp add: u i)
qed

text \<open>
  Claim C9 against the code: a frame of fewer than two bytes has no sample, the mean is
  0 divided by 0, and the energy level is \<open>NaN\<close>, which is not a number between 0
  and 1; \<open>handleAudio\<close> then takes the frame for silence.
\<close>

theorem audio_level_of_empty_frame:
  "samples_of [] = [] \<and> calculateAudioLevel [] = None
   \<and> samples_of [7] = [] \<and> calculateAudioLevel [7] = None
   \<and> \<not> above_threshold (calculateAudioLevel [])"
  by (simp add: calculateAudioLevel_def above_threshold_def)

lemma length_pairs: "length (concat (replicate n [a, b])) = 2 * n"
  by (induction n) simp_all

lemma loud_frame_length: "length loud_frame = 3200"
  by (simp add: loud_frame_def length_pairs)

lemma loud_frame_level: "calculateAudioLevel loud_frame = Some (32767 / 32768)"
proof -
  have s: "samples_of loud_frame = replicate 1600 (word_cat (127 :: 8 word) (255 :: 8 word))"
    by (simp only: loud_frame_def samples_of_pairs)
  have ne: "samples_of loud_frame \<noteq> []" by (simp add: s)
  have all: "\<forall>x \<in> set (samples_of loud_frame). sint x = 32767"
    by (simp add: s sint_max_sample)
  from level_of_constant [OF ne all] show ?thesis by simp
qed

lemma loud_frame_above: "above_threshold (calculateAudioLevel loud_frame)"
  by (simp add: loud_frame_level above_threshold_def SPEECH_THRESHOLD_def)

lemma blip_frame_above: "above_threshold (calculateAudioLevel blip_frame)"
proof -
  have ne: "samples_of blip_frame \<noteq> []" by (simp add: blip_frame_def)
  have all: "\<forall>x \<in> set (samples_of blip_frame). sint x = 32767"
    by (simp add: blip_frame_def sint_max_sample)
  from level_of_constant [OF ne all] show ?thesis
    by (simp add: above_threshold_def SPEECH_THRESHOLD_def)
qed

lemma utterances_append: "utterances (xs @ ys) = utterances xs @ utterances ys"
  by (induction xs rule: utterances.induct) simp_all

lemma processAudio_idle:
  assumes "\<not> truthy (isProcessing sa sid)"
  shows "buffered (fst (processAudio sa sid)) sid = []"
    and "utterances (snd (processAudio sa sid)) =
           (if 3200 \<le> length (concat (buffered sa sid)) then [concat (buffered sa sid)] else [])"
    and "length (concat (buffered sa sid)) < 3200 \<Longrightarrow> snd (processAudio sa sid) = []"
  using assms by (auto simp: processAudio_def Let_def buffered_def split: option.splits)

lemma handleAudio_loud:
  assumes "above_threshold (calculateAudioLevel f)"
  shows "buffered (fst (handleAudio sa sid f)) sid = buffered sa sid @ [f]"
    and "truthy (isSpeaking (fst (handleAudio sa sid f)) sid)"
    and "audioBuffers (fst (handleAudio sa sid f)) sid \<noteq> None"
    and "isProcessing (fst (handleAudio sa sid f)) = isProcessing sa"
    and "utterances (snd (handleAudio sa sid f)) = []"
  using assms by (auto simp: handleAudio_def Let_def buffered_def truthy_def split: option.splits)

lemma handleAudio_speaking:
  assumes "truthy (isSpeaking sa sid)" and "audioBuffers sa sid \<noteq> None"
  shows "buffered (fst (handleAudio sa sid f)) sid = buffered sa sid @ [f]"
    and "truthy (isSpeaking (fst (handleAudio sa sid f)) sid)"
    and "audioBuffers (fst (handleAudio sa sid f)) sid \<noteq> None"
    and "isProcessing (fst (handleAudio sa sid f)) = isProcessing sa"
    and "utterances (snd (handleAudio sa sid f)) = []"
  using assms by (auto simp: handleAudio_def Let_def buffered_def truthy_def split: option.splits)

lemma feed_speaking:
  assumes "truthy (isSpeaking sa sid)" and "audioBuffers sa sid \<noteq> None"
  shows "buffered (fst (feed sa sid fs)) sid = buffered sa sid @ fs
         \<and> isProcessing (fst (feed sa sid fs)) = isProcessing sa
         \<and> utterances (snd (feed sa sid fs)) = []"
  using assms
proof (induction fs arbitrary: sa)
  case Nil
  then show ?case by simp
next
  case (Cons f fs)
  obtain sa' es where h: "handleAudio sa sid f = (sa', es)" by (cases "handleAudio sa sid f")
  have step: "buffered sa' sid = buffered sa sid @ [f]" "truthy (isSpeaking sa' sid)"
    "audioBuffers sa' sid \<noteq> None" "isProcessing sa' = isProcessing sa" "utterances es = []"
    using handleAudio_speaking [OF Cons.prems, of f] h by simp_all
  obtain sa'' es' where r: "feed sa' sid fs = (sa'', es')" by (cases "feed sa' sid fs")
  from Cons.IH [OF step(2) step(3)] r step
  show ?case using h by (simp add: utterances_append)
qed

lemma feed_from_loud:
  assumes "above_threshold (calculateAudioLevel f)"
  shows "buffered (fst (feed sa sid (f # fs))) sid = buffered sa sid @ f # fs"
    and "isProcessing (fst (feed sa sid (f # fs))) = isProcessing sa"
    and "utterances (snd (feed sa sid (f # fs))) = []"
proof -
  obtain sa' es where h: "handleAudio sa sid f = (sa', es)" by (cases "handleAudio sa sid f")
  have step: "buffered sa' sid = buffered sa sid @ [f]" "truthy (isSpeaking sa' sid)"
    "audioBuffers sa' sid \<noteq> None" "isProcessing sa' = isProcessing sa" "utterances es = []"
    using handleAudio_loud [OF assms, of sa sid] h by simp_all
  obtain sa'' es' where r: "feed sa' sid fs = (sa'', es')" by (cases "feed sa' sid fs")
  from feed_speaking [OF step(2) step(3), of fs] r step h
  show "buffered (fst (feed sa sid (f # fs))) sid = buffered sa sid @ f # fs"
    and "isProcessing (fst (feed sa sid (f # fs))) = isProcessing sa"
    and "utterances (snd (feed sa sid (f # fs))) = []"
    by (simp_all add: utterances_append)
qed

lemma silenceTimer_fires_idle:
  assumes "\<not> truthy (isProcessing sa sid)"
  shows "buffered (fst (silenceTimer_fires sa sid)) sid = []"
    and "utterances (snd (silenceTimer_fires sa sid)) =
           (if 3200 \<le> length (concat (buffered sa sid)) then [concat (buffered sa sid)] else [])"
    and "length (concat (buffered sa sid)) < 3200 \<Longrightarrow> snd (silenceTimer_fires sa sid) = []"
proof -
  let ?sa = "sa\<lparr>isSpeaking := (isSpeaking sa)(sid \<mapsto> False),
                silenceTimers := (silenceTimers sa)(sid := None)\<rparr>"
  have idle: "\<not> truthy (isProcessing ?sa sid)" using assms by simp
  have same: "buffered ?sa sid = buffered sa sid" by (simp add: buffered_def)
  from processAudio_idle [OF idle] same
  show "buffered (fst (silenceTimer_fires sa sid)) sid = []"
    and "utterances (snd (silenceTimer_fires sa sid)) =
           (if 3200 \<le> length (concat (buffered sa sid)) then [concat (buffered sa sid)] else [])"
    and "length (concat (buffered sa sid)) < 3200 \<Longrightarrow> snd (silenceTimer_fires sa sid) = []"
    by (simp_all add: silenceTimer_fires_def)
qed

lemma processAudioNow_idle:
  assumes "\<not> truthy (isProcessing sa sid)"
  shows "utterances (snd (processAudioNow sa sid)) =
           (if 3200 \<le> length (concat (buffered sa sid)) then [concat (buffered sa sid)] else [])"
proof -
  let ?sa = "sa\<lparr>silenceTimers := (silenceTimers sa)(sid := None)\<rparr>"
  have idle: "\<not> truthy (isProcessing ?sa sid)" using assms by simp
  have same: "buffered ?sa sid = buffered sa sid" by (simp add: buffered_def)
  from processAudio_idle(2) [OF idle] same show ?thesis
    by (simp add: processAudioNow_def)
qed

lemma fresh_agent:
  "buffered new_SpeechAgent sid = []" "\<not> truthy (isProcessing new_SpeechAgent sid)"
  by (simp_all add: new_SpeechAgent_def buffered_def truthy_def)

text \<open>
  Claim C6, as the claim states it, fails at the floor itself: a session whose buffer
  holds exactly 3200 bytes (one frame of 1600 loud samples) when the user stops
  listening is not discarded; its audio is handed on as an utterance.
\<close>

theorem flush_at_floor_counterexample:
  "length (concat (buffered (fst (handleAudio new_SpeechAgent ''s1'' loud_frame)) ''s1'')) = 3200
   \<and> utterances (snd (processAudioNow (fst (handleAudio new_SpeechAgent ''s1'' loud_frame)) ''s1''))
       = [loud_frame]"
proof -
  let ?sa = "fst (handleAudio new_SpeechAgent ''s1'' loud_frame)"
  have b: "buffered ?sa ''s1'' = [loud_frame]"
    using handleAudio_loud(1) [OF loud_frame_above, of new_SpeechAgent "''s1''"]
    by (simp add: fresh_agent)
  have "isProcessing ?sa = isProcessing new_SpeechAgent"
    using handleAudio_loud(4) [OF loud_frame_above, of new_SpeechAgent "''s1''"] .
  then have idle: "\<not> truthy (isProcessing ?sa ''s1'')"
    by (simp add: fresh_agent)
  from processAudioNow_idle [OF idle] b show ?thesis
    by (simp add: loud_frame_length)
qed

text \<open>
  Claim C6, amended. For every flush of a session's audio buffer (a run of
  \<open>processAudio\<close> for a session that is not already being processed, started by the
  silence timer or directly): the buffer is swapped out and left empty, and exactly one
  utterance carrying the concatenation of all buffered frames is handed on if and only
  if the concatenation has at least 3200 bytes; a buffer of fewer than 3200 bytes is
  discarded with no event at all. The buffered frames are the frames received from the
  first one above the speech threshold on (speech frames and the silence frames that
  follow them), in arrival order, after whatever the buffer held before; receiving
  frames hands on no utterance.
\<close>

theorem flush_emits_iff_floor_reached:
  "\<not> truthy (isProcessing sa sid) \<longrightarrow>
     buffered (fst (processAudio sa sid)) sid = []
     \<and> utterances (snd (processAudio sa sid)) =
         (if 3200 \<le> length (concat (buffered sa sid)) then [concat (buffered sa sid)] else [])
     \<and> (length (concat (buffered sa sid)) < 3200 \<longrightarrow> snd (processAudio sa sid) = [])
     \<and> buffered (fst (silenceTimer_fires sa sid)) sid = []
     \<and> utterances (snd (silenceTimer_fires sa sid)) =
         (if 3200 \<le> length (concat (buffered sa sid)) then [concat (buffered sa sid)] else [])
     \<and> (length (concat (buffered sa sid)) < 3200 \<longrightarrow> snd (silenceTimer_fires sa sid) = [])
     \<and> (above_threshold (calculateAudioLevel f) \<longrightarrow>
          buffered (fst (feed sa sid (f # fs))) sid = buffered sa sid @ f # fs
          \<and> utterances (snd (feed sa sid (f # fs))) = []
          \<and> buffered (fst (silenceTimer_fires (fst (feed sa sid (f # fs))) sid)) sid = []
          \<and> utterances (snd (silenceTimer_fires (fst (feed sa sid (f # fs))) sid)) =
              (if 3200 \<le> length (concat (buffered sa sid @ f # fs))
               then [concat (buffered sa sid @ f # fs)] else []))"
proof (intro impI conjI)
  assume idle: "\<not> truthy (isProcessing sa sid)"
  show "buffered (fst (processAudio sa sid)) sid = []"
    by (rule processAudio_idle(1) [OF idle])
  show "utterances (snd (processAudio sa sid)) =
         (if 3200 \<le> length (concat (buffered sa sid)) then [concat (buffered sa sid)] else [])"
    by (rule processAudio_idle(2) [OF idle])
  show "buffered (fst (silenceTimer_fires sa sid)) sid = []"
    by (rule silenceTimer_fires_idle(1) [OF idle])
  show "utterances (snd (silenceTimer_fires sa sid)) =
         (if 3200 \<le> length (concat (buffered sa sid)) then [concat (buffered sa sid)] else [])"
    by (rule silenceTimer_fires_idle(2) [OF idle])
  {
    assume "length (concat (buffered sa sid)) < 3200"
    then show "snd (processAudio sa sid) = []"
      by (rule processAudio_idle(3) [OF idle])
  }
  {
    assume "length (concat (buffered sa sid)) < 3200"
    then show "snd (silenceTimer_fires sa sid) = []"
      by (rule silenceTimer_fires_idle(3) [OF idle])
  }
  {
    assume loud: "above_threshold (calculateAudioLevel f)"
    let ?sa = "fst (feed sa sid (f # fs))"
    show b: "buffered ?sa sid = buffered sa sid @ f # fs"
      by (rule feed_from_loud(1) [OF loud])
    show "utterances (snd (feed sa sid (f # fs))) = []"
      by (rule feed_from_loud(3) [OF loud])
    have idle': "\<not> truthy (isProcessing ?sa sid)"
      using feed_from_loud(2) [OF loud, of sa sid fs] idle by simp
    show "buffered (fst (silenceTimer_fires ?sa sid)) sid = []"
      by (rule silenceTimer_fires_idle(1) [OF idle'])
    show "utterances (snd (silenceTimer_fires ?sa sid)) =
              (if 3200 \<le> length (concat (buffered sa sid @ f # fs))
               then [concat (buffered sa sid @ f # fs)] else [])"
      using silenceTimer_fires_idle(2) [OF idle'] b by simp
  }
qed

theorem flush_emits_iff_floor_reached_witness:
  "\<not> truthy (isProcessing new_SpeechAgent ''s1'')
   \<and> above_threshold (calculateAudioLevel loud_frame)
   \<and> above_threshold (calculateAudioLevel blip_frame)
   \<and> buffered (fst (feed new_SpeechAgent ''s1'' [loud_frame, [0, 0]])) ''s1'' = [loud_frame, [0, 0]]
   \<and> utterances (snd (silenceTimer_fires (fst (feed new_SpeechAgent ''s1'' [loud_frame, [0, 0]])) ''s1''))
       = [loud_frame @ [0, 0]]
   \<and> utterances (snd (silenceTimer_fires (fst (feed new_SpeechAgent ''s1'' [blip_frame, [0, 0]])) ''s1''))
       = []
   \<and> snd (processAudio new_SpeechAgent ''s1'') = []"
proof -
  note idle = fresh_agent(2) [of "''s1''"]
  note inst1 = flush_emits_iff_floor_reached
      [of new_SpeechAgent "''s1''" loud_frame "[[0, 0]]", THEN mp, OF idle]
  note inst2 = flush_emits_iff_floor_reached
      [of new_SpeechAgent "''s1''" blip_frame "[[0, 0]]", THEN mp, OF idle]
  have len1: "length (concat (buffered new_SpeechAgent ''s1'' @ [loud_frame, [0, 0]])) = 3202"
    by (simp add: fresh_agent loud_frame_length)
  have len2: "length (concat (buffered new_SpeechAgent ''s1'' @ [blip_frame, [0, 0]])) = 4"
    by (simp add: fresh_agent blip_frame_def)
  have a: "buffered (fst (feed new_SpeechAgent ''s1'' [loud_frame, [0, 0]])) ''s1'' = [loud_frame, [0, 0]]"
    using inst1 loud_frame_above by (simp add: fresh_agent)
  have b: "utterances (snd (silenceTimer_fires (fst (feed new_SpeechAgent ''s1'' [loud_frame, [0, 0]])) ''s1''))
       = [loud_frame @ [0, 0]]"
    using inst1 loud_frame_above len1 by (simp add: fresh_agent)
  have c: "utterances (snd (silenceTimer_fires (fst (feed new_SpeechAgent ''s1'' [blip_frame, [0, 0]])) ''s1''))
       = []"
    using inst2 blip_frame_above len2 by (simp add: fresh_agent)
  have d: "snd (processAudio new_SpeechAgent ''s1'') = []"
    using inst1 by (simp add: fresh_agent)
  from idle loud_frame_above blip_frame_above a b c d show ?thesis by (simp only: simp_thms)
qed

end
